theory Spec2Isabelle
  imports Main
begin

unbundle bit_operations_syntax

section \<open>JavaScript values used by the server\<close>

text \<open>
  A \<open>Buffer\<close> is a list of bytes; a byte is a natural number below 256. A JavaScript
  string is a list of code units; the model covers the code units 0..255, one \<open>char\<close>
  each. Wall-clock readings (\<open>Date.now()\<close>) are passed to the functions that take them.
\<close>

type_synonym byte = nat
type_synonym Buffer = "byte list"

definition code :: "char \<Rightarrow> nat" where
  "code c = of_char c"

text \<open>The class \<open>\s\<close> of a regular expression, among the code units 0..255:
  TAB, LF, VT, FF, CR, SPACE and NBSP.\<close>

definition is_space :: "char \<Rightarrow> bool" where
  "is_space c = (code c \<in> {9, 10, 11, 12, 13, 32, 160})"

text \<open>\<open>s.replace(/\s+/g, '')\<close>: every run of whitespace is deleted.\<close>

definition strip_ws :: "string \<Rightarrow> string" where
  "strip_ws s = filter (\<lambda>c. \<not> is_space c) s"

text \<open>\<open>Buffer.from(s, 'utf-8')\<close>: a code unit below 128 is one byte, one from 128 to 255
  is two bytes.\<close>

definition utf8_unit :: "char \<Rightarrow> Buffer" where
  "utf8_unit c = (if code c < 128 then [code c]
                  else [192 + code c div 64, 128 + code c mod 64])"

definition utf8 :: "string \<Rightarrow> Buffer" where
  "utf8 s = concat (map utf8_unit s)"

text \<open>The value of a hexadecimal digit, \<open>None\<close> for any other code unit.\<close>

definition unhex :: "char \<Rightarrow> nat option" where
  "unhex c = (let n = code c in
     if 48 \<le> n \<and> n \<le> 57 then Some (n - 48)
     else if 97 \<le> n \<and> n \<le> 102 then Some (n - 87)
     else if 65 \<le> n \<and> n \<le> 70 then Some (n - 55)
     else None)"

text \<open>\<open>Buffer.from(s, 'hex')\<close>: the digits are read in pairs, and decoding stops at the
  first pair that is not two hexadecimal digits, or at a single digit left at the end. What
  was decoded so far is the result; no error is raised.\<close>

fun hex_decode :: "string \<Rightarrow> Buffer" where
  "hex_decode (a # b # rest) =
     (case unhex a of
        None \<Rightarrow> []
      | Some x \<Rightarrow> (case unhex b of
                     None \<Rightarrow> []
                   | Some y \<Rightarrow> (16 * x + y) # hex_decode rest))"
| "hex_decode _ = []"

text \<open>\<open>parseInt(s, 2)\<close>: leading whitespace is skipped, one sign is read, then the longest
  run of binary digits; \<open>None\<close> is NaN (no digit at all).\<close>

definition is_bit :: "char \<Rightarrow> bool" where
  "is_bit c = (c = CHR ''0'' \<or> c = CHR ''1'')"

definition bits_value :: "string \<Rightarrow> int" where
  "bits_value z = foldl (\<lambda>a c. 2 * a + (if c = CHR ''1'' then 1 else 0)) 0 z"

definition parseInt2 :: "string \<Rightarrow> int option" where
  "parseInt2 s =
     (let t = dropWhile is_space s;
          sign = (if t \<noteq> [] \<and> hd t = CHR ''-'' then - 1 else 1);
          u = (if t \<noteq> [] \<and> (hd t = CHR ''+'' \<or> hd t = CHR ''-'') then tl t else t);
          z = takeWhile is_bit u
      in if z = [] then None else Some (sign * bits_value z))"

text \<open>Storing a number into a \<open>Buffer\<close> keeps it modulo 256; NaN is stored as 0.\<close>

definition to_uint8 :: "int option \<Rightarrow> byte" where
  "to_uint8 v = (case v of None \<Rightarrow> 0 | Some n \<Rightarrow> nat (n mod 256))"

text \<open>The loop of the binary mode: \<open>for (i = 0; i < bits.length; i += 8)
  bytes.push(parseInt(bits.substring(i, i + 8), 2))\<close>, as a recursion on what is left of
  \<open>bits\<close> from \<open>i\<close> on.\<close>

function binary_bytes :: "string \<Rightarrow> int option list" where
  "binary_bytes bits =
     (if bits = [] then []
      else parseInt2 (take 8 bits) # binary_bytes (drop 8 bits))"
  by pat_completeness auto
termination
  by (relation "measure length") auto

declare binary_bytes.simps [simp del]

text \<open>The \<open>switch (mode)\<close> of \<open>send\<close>: the bytes handed to the port.\<close>

definition encode :: "string \<Rightarrow> string \<Rightarrow> Buffer" where
  "encode m d =
     (if m = ''hex'' then hex_decode (strip_ws d)
      else if m = ''binary'' then map to_uint8 (binary_bytes (strip_ws d))
      else utf8 (d @ [CHR 0x0A]))"


section \<open>The serial manager (serial-manager.js)\<close>

datatype direction = rx | tx

record LineEntry =
  timestamp :: nat
  direction :: direction
  data :: string
  mode :: "string option"
  index :: nat
  channelId :: string

record Stats =
  bytesRx :: nat
  bytesTx :: nat
  linesRx :: nat
  linesTx :: nat
  errors :: nat
  connectedAt :: "nat option"

text \<open>The \<open>portConfig\<close> object that \<open>connect\<close> builds from its argument; \<open>stopBits\<close> is
  kept as its decimal text.\<close>

record PortConfig =
  path :: string
  baudRate :: nat
  dataBits :: nat
  stopBits :: string
  parity :: string
  rtscts :: bool
  xon :: bool
  xoff :: bool
  autoOpen :: bool

text \<open>The state of a \<open>ReadlineParser\<close>: its accumulator \<open>this.buffer\<close>, and the bytes
  that the string decoder of its readable side holds back between two chunks (see the
  receive path below). Both are empty in a new parser.\<close>

record ReadlineParser =
  parser_buffer :: Buffer
  decoder_held :: Buffer

definition new_ReadlineParser :: ReadlineParser where
  "new_ReadlineParser = \<lparr>parser_buffer = [], decoder_held = []\<rparr>"

text \<open>A \<open>SerialConnection\<close>. The field \<open>port\<close> holds the configuration the
  \<open>SerialPort\<close> object was made with, \<open>parser\<close> the state of the line parser;
  \<open>None\<close> is \<open>null\<close>.\<close>

record SerialConnection =
  conn_channelId :: string
  port :: "PortConfig option"
  parser :: "ReadlineParser option"
  config :: "PortConfig option"
  connected :: bool
  stats :: Stats
  MAX_BUFFER_LINES :: nat
  buffer :: "LineEntry list"
  bufferIndex :: nat

definition zero_stats :: Stats where
  "zero_stats = \<lparr>bytesRx = 0, bytesTx = 0, linesRx = 0, linesTx = 0, errors = 0,
                  connectedAt = None\<rparr>"

definition new_SerialConnection :: "string \<Rightarrow> SerialConnection" where
  "new_SerialConnection cid =
     \<lparr>conn_channelId = cid, port = None, parser = None, config = None, connected = False,
      stats = zero_stats, MAX_BUFFER_LINES = 10000000, buffer = [], bufferIndex = 0\<rparr>"

record Status =
  st_channelId :: string
  st_connected :: bool
  st_config :: "PortConfig option"
  st_stats :: Stats
  st_bufferSize :: nat

definition conn_getStatus :: "SerialConnection \<Rightarrow> Status" where
  "conn_getStatus c =
     \<lparr>st_channelId = conn_channelId c, st_connected = connected c, st_config = config c,
      st_stats = stats c, st_bufferSize = length (buffer c)\<rparr>"

definition addToBuffer :: "LineEntry \<Rightarrow> SerialConnection \<Rightarrow> SerialConnection" where
  "addToBuffer entry c =
     (let c1 = (if length (buffer c) \<ge> MAX_BUFFER_LINES c then c\<lparr>buffer := tl (buffer c)\<rparr>
                else c)
      in c1\<lparr>buffer := buffer c1 @ [entry]\<rparr>)"

text \<open>What the manager emits on itself as an \<open>EventEmitter\<close>.\<close>

datatype event =
    LineEv string LineEntry
  | RawDataEv string Buffer
  | ConnectedEv string PortConfig
  | DisconnectedEv string
  | ErrorEv string string

text \<open>The manager: the \<open>connections\<close> map, and two logs of what it has done to the
  outside, oldest first: the events emitted, and the buffers handed to \<open>port.write\<close> with
  the channel they were written on.\<close>

record SerialManager =
  connections :: "string \<rightharpoonup> SerialConnection"
  emitted :: "event list"
  writes :: "(string \<times> Buffer) list"

definition new_SerialManager :: SerialManager where
  "new_SerialManager = \<lparr>connections = Map.empty, emitted = [], writes = []\<rparr>"

datatype error =
    SerialportNotInstalled
  | OpenFailed string
  | NotConnected
  | MacroNotFound

definition emit :: "event \<Rightarrow> SerialManager \<Rightarrow> SerialManager" where
  "emit e m = m\<lparr>emitted := emitted m @ [e]\<rparr>"

definition set_conn :: "string \<Rightarrow> SerialConnection \<Rightarrow> SerialManager \<Rightarrow> SerialManager" where
  "set_conn cid c m = m\<lparr>connections := (connections m)(cid \<mapsto> c)\<rparr>"

definition getConnection :: "string \<Rightarrow> SerialManager \<Rightarrow> SerialConnection \<times> SerialManager" where
  "getConnection cid m =
     (case connections m cid of
        None \<Rightarrow> (new_SerialConnection cid, set_conn cid (new_SerialConnection cid) m)
      | Some c \<Rightarrow> (c, m))"

text \<open>\<open>disconnect\<close>, with the callback of \<open>port.close\<close> run at once; an error of the close
  is only logged.\<close>

definition disconnect :: "string \<Rightarrow> SerialManager \<Rightarrow> SerialManager" where
  "disconnect cid m =
     (case connections m cid of
        None \<Rightarrow> m
      | Some c \<Rightarrow>
          if port c = None \<or> \<not> connected c then set_conn cid (c\<lparr>connected := False\<rparr>) m
          else emit (DisconnectedEv cid)
                 (set_conn cid (c\<lparr>connected := False, port := None, parser := None,
                                  config := None\<rparr>) m))"

text \<open>\<open>connect\<close>, given the \<open>portConfig\<close> it builds, whether the serialport package was
  loaded, the error of \<open>port.open\<close> if any, and the clock. The callback of \<open>port.open\<close> is
  run at once. The result is what the promise settles to, with the manager after the call.\<close>

definition connect ::
  "string \<Rightarrow> PortConfig \<Rightarrow> bool \<Rightarrow> string option \<Rightarrow> nat \<Rightarrow> SerialManager
     \<Rightarrow> (error + PortConfig) \<times> SerialManager" where
  "connect cid portConfig available open_err now m =
     (if \<not> available then (Inl SerialportNotInstalled, m)
      else
        let (c0, m1) = getConnection cid m;
            m2 = (if connected c0 then disconnect cid m1 else m1);
            c2 = (case connections m2 cid of None \<Rightarrow> c0 | Some c \<Rightarrow> c);
            c3 = c2\<lparr>port := Some portConfig\<rparr>
        in case open_err of
             Some msg \<Rightarrow> (Inl (OpenFailed msg), set_conn cid (c3\<lparr>connected := False\<rparr>) m2)
           | None \<Rightarrow>
               (Inr portConfig,
                emit (ConnectedEv cid portConfig)
                  (set_conn cid
                     (c3\<lparr>config := Some portConfig, connected := True,
                         stats := zero_stats\<lparr>connectedAt := Some now\<rparr>,
                         parser := Some new_ReadlineParser\<rparr>) m2)))"

text \<open>The listener \<open>conn.port.on('error', ...)\<close> that \<open>connect\<close> registers on the port
  it creates.\<close>

definition port_error :: "string \<Rightarrow> string \<Rightarrow> SerialManager \<Rightarrow> SerialManager" where
  "port_error cid msg m =
     (case connections m cid of
        None \<Rightarrow> m
      | Some c \<Rightarrow>
          if port c = None then m
          else emit (ErrorEv cid msg)
                 (set_conn cid (c\<lparr>stats := (stats c)\<lparr>errors := errors (stats c) + 1\<rparr>\<rparr>) m))"

text \<open>\<open>send\<close>, given the error of \<open>port.write\<close> if any and the clock; the callback of the
  write is run at once. \<open>Inl\<close> is the exception thrown. The port is a writable stream: a
  write that fails hands its error to the callback of the write and then emits \<open>'error'\<close>
  on the port, so the listener above runs after the callback, on the same error.\<close>

definition send ::
  "string \<Rightarrow> string \<Rightarrow> string \<Rightarrow> string option \<Rightarrow> nat \<Rightarrow> SerialManager
     \<Rightarrow> error + SerialManager" where
  "send cid d md write_err now m =
     (case connections m cid of
        None \<Rightarrow> Inl NotConnected
      | Some c \<Rightarrow>
          if port c = None \<or> \<not> connected c then Inl NotConnected
          else
            let buf = encode md d;
                m1 = m\<lparr>writes := writes m @ [(cid, buf)]\<rparr>
            in case write_err of
                 Some msg \<Rightarrow>
                   Inr (port_error cid msg
                          (emit (ErrorEv cid (''Send error: '' @ msg))
                             (set_conn cid
                                (c\<lparr>stats := (stats c)\<lparr>errors := errors (stats c) + 1\<rparr>\<rparr>) m1)))
               | None \<Rightarrow>
                   let c1 = c\<lparr>stats := (stats c)\<lparr>bytesTx := bytesTx (stats c) + length buf,
                                                  linesTx := linesTx (stats c) + 1\<rparr>\<rparr>;
                       entry = \<lparr>timestamp = now, direction = tx, data = d, mode = Some md,
                                index = bufferIndex c1, channelId = cid\<rparr>;
                       c2 = addToBuffer entry (c1\<lparr>bufferIndex := bufferIndex c1 + 1\<rparr>)
                   in Inr (emit (LineEv cid entry) (set_conn cid c2 m1)))"

text \<open>\<open>Array.prototype.slice\<close>: a negative bound counts from the end, and both bounds are
  clamped to the array.\<close>

definition slice :: "'a list \<Rightarrow> int \<Rightarrow> int option \<Rightarrow> 'a list" where
  "slice xs start fin =
     (let len = int (length xs);
          k = (if start < 0 then max (len + start) 0 else min start len);
          e = (case fin of
                 None \<Rightarrow> len
               | Some f \<Rightarrow> if f < 0 then max (len + f) 0 else min f len)
      in take (nat (e - k)) (drop (nat k) xs))"

definition getBuffer :: "string \<Rightarrow> int \<Rightarrow> int option \<Rightarrow> SerialManager \<Rightarrow> LineEntry list" where
  "getBuffer cid start count m =
     (case connections m cid of
        None \<Rightarrow> []
      | Some c \<Rightarrow>
          (case count of
             None \<Rightarrow> slice (buffer c) start None
           | Some n \<Rightarrow> slice (buffer c) start (Some (start + n))))"

definition clearBuffer :: "string \<Rightarrow> SerialManager \<Rightarrow> SerialManager" where
  "clearBuffer cid m =
     (case connections m cid of
        None \<Rightarrow> m
      | Some c \<Rightarrow> set_conn cid (c\<lparr>buffer := [], bufferIndex := 0\<rparr>) m)"

datatype status_result =
    One Status
  | Summary "string \<rightharpoonup> Status" bool

text \<open>\<open>getStatus\<close>: the argument is \<open>None\<close> when the caller passes \<open>undefined\<close>; the empty
  string is falsy as well.\<close>

definition getStatus :: "string option \<Rightarrow> bool \<Rightarrow> SerialManager \<Rightarrow> status_result" where
  "getStatus arg available m =
     (case arg of
        None \<Rightarrow> Summary (map_option conn_getStatus \<circ> connections m) available
      | Some cid \<Rightarrow>
          if cid = [] then Summary (map_option conn_getStatus \<circ> connections m) available
          else (case connections m cid of
                  Some c \<Rightarrow> One (conn_getStatus c)
                | None \<Rightarrow> One \<lparr>st_channelId = cid, st_connected = False, st_config = None,
                                st_stats = zero_stats, st_bufferSize = 0\<rparr>))"

definition removeChannel :: "string \<Rightarrow> SerialManager \<Rightarrow> SerialManager" where
  "removeChannel cid m =
     (let m1 = disconnect cid m in m1\<lparr>connections := (connections m1)(cid := None)\<rparr>)"


subsection \<open>The receive path\<close>

text \<open>
  \<open>connect\<close> pipes the port into \<open>new ReadlineParser({delimiter: '\n',
  includeDelimiter: false})\<close>. The parser belongs to the package
  \<open>@serialport/parser-readline\<close>; its \<open>_transform(chunk)\<close> is
  \<^verbatim>\<open>
    let data = Buffer.concat([this.buffer, chunk]); let position
    while ((position = data.indexOf(this.delimiter)) !== -1) {
      this.push(data.slice(0, position + (this.includeDelimiter ? this.delimiter.length : 0)))
      data = data.slice(position + this.delimiter.length) }
    this.buffer = data
  \<close>
  with the delimiter the one byte 10 and \<open>includeDelimiter\<close> false. \<open>transform_loop\<close> is the
  \<open>while\<close> loop: the chunks pushed, and the data left for \<open>this.buffer\<close>.
\<close>

function transform_loop :: "Buffer \<Rightarrow> Buffer list \<times> Buffer" where
  "transform_loop d =
     (if 10 \<in> set d then
        (let position = length (takeWhile (\<lambda>b. b \<noteq> 10) d);
             r = transform_loop (drop (position + 1) d)
         in (take position d # fst r, snd r))
      else ([], d))"
  by pat_completeness auto
termination
proof (relation "measure length")
  show "wf (measure length)"
    by simp
next
  fix d :: Buffer and position :: nat
  assume "10 \<in> set d"
  then have "0 < length d"
    by (cases d) simp_all
  then show "(drop (position + 1) d, d) \<in> measure length"
    by simp
qed

declare transform_loop.simps [simp del]

definition transform :: "Buffer \<Rightarrow> Buffer \<Rightarrow> Buffer list \<times> Buffer" where
  "transform acc chunk = transform_loop (acc @ chunk)"

text \<open>
  The readable side of the parser has the encoding \<open>utf8\<close>. A push of no bytes is
  dropped by the stream. Any other chunk pushed goes through the stream's
  \<open>StringDecoder\<close>, which returns the text of the characters that are complete and holds
  back the bytes of a last character that is not; a chunk for which it returns the empty
  text makes no \<open>'data'\<close> event, any other text is handed to the \<open>'data'\<close> listener.

  The decoder is part of Node and not of the repository, so the receive path takes it as
  the parameter \<open>dec\<close>: \<open>dec held chunk\<close> is the text returned for \<open>chunk\<close> and the
  bytes held after it, when \<open>held\<close> were held before.
\<close>

type_synonym StringDecoder = "Buffer \<Rightarrow> Buffer \<Rightarrow> string \<times> Buffer"

text \<open>One \<open>this.push(chunk)\<close> on the readable side: the texts handed to the listener so
  far and the bytes held, before and after.\<close>

definition readable_push :: "StringDecoder \<Rightarrow> string list \<times> Buffer \<Rightarrow> Buffer \<Rightarrow> string list \<times> Buffer" where
  "readable_push dec st chunk =
     (if chunk = [] then st
      else let r = dec (snd st) chunk
           in (if fst r = [] then fst st else fst st @ [fst r], snd r))"

definition data_events :: "StringDecoder \<Rightarrow> Buffer \<Rightarrow> Buffer list \<Rightarrow> string list \<times> Buffer" where
  "data_events dec held pushed = foldl (readable_push dec) ([], held) pushed"

text \<open>What is known of the decoder without its code: when nothing is held, the UTF-8
  bytes of a text are decoded to that text, and nothing is held after them.

  \<open>utf8_text\<close> reads bytes as the UTF-8 of a text of code units up to 255: a byte below
  128 is a code unit, and a byte \<open>c2\<close> or \<open>c3\<close> followed by a byte from \<open>80\<close> to
  \<open>bf\<close> is the code unit these two encode. \<open>sample_decoder\<close> decodes every chunk with
  it and holds nothing; it stands for the decoder in the examples, where every chunk
  pushed is the UTF-8 of such a text, and says nothing of the decoder on other bytes.\<close>

fun utf8_text :: "Buffer \<Rightarrow> string" where
  "utf8_text [] = []"
| "utf8_text [a] = [char_of a]"
| "utf8_text (a # b # r) =
     (if 194 \<le> a \<and> a \<le> 195 \<and> 128 \<le> b \<and> b \<le> 191
      then char_of ((a - 192) * 64 + (b - 128)) # utf8_text r
      else char_of a # utf8_text (b # r))"

definition sample_decoder :: StringDecoder where
  "sample_decoder held chunk = (utf8_text chunk, [])"

text \<open>The listener \<open>conn.parser.on('data', (line) => ...)\<close>.\<close>

definition on_parser_data :: "string \<Rightarrow> nat \<Rightarrow> SerialManager \<Rightarrow> string \<Rightarrow> SerialManager" where
  "on_parser_data cid now m line =
     (case connections m cid of
        None \<Rightarrow> m
      | Some c \<Rightarrow>
          let c1 = c\<lparr>stats := (stats c)\<lparr>linesRx := linesRx (stats c) + 1\<rparr>\<rparr>;
              entry = \<lparr>timestamp = now, direction = rx, data = line, mode = None,
                       index = bufferIndex c1, channelId = cid\<rparr>;
              c2 = addToBuffer entry (c1\<lparr>bufferIndex := bufferIndex c1 + 1\<rparr>)
          in emit (LineEv cid entry) (set_conn cid c2 m))"

text \<open>The open port of channel \<open>cid\<close> delivers \<open>chunk\<close>: the listener
  \<open>conn.port.on('data', ...)\<close> runs, then the parser, then the line listener on every text
  its readable side hands over. A channel that is not open receives nothing.\<close>

definition port_data :: "StringDecoder \<Rightarrow> string \<Rightarrow> Buffer \<Rightarrow> nat \<Rightarrow> SerialManager \<Rightarrow> SerialManager" where
  "port_data dec cid chunk now m =
     (case connections m cid of
        None \<Rightarrow> m
      | Some c \<Rightarrow>
          (case parser c of
             None \<Rightarrow> m
           | Some p \<Rightarrow>
               if \<not> connected c then m
               else
                 let c1 = c\<lparr>stats := (stats c)\<lparr>bytesRx := bytesRx (stats c) + length chunk\<rparr>\<rparr>;
                     r = transform (parser_buffer p) chunk;
                     ev = data_events dec (decoder_held p) (fst r);
                     c2 = c1\<lparr>parser := Some \<lparr>parser_buffer = snd r, decoder_held = snd ev\<rparr>\<rparr>;
                     m1 = emit (RawDataEv cid chunk) (set_conn cid c2 m)
                 in foldl (on_parser_data cid now) m1 (fst ev)))"

subsection \<open>Sequences of operations\<close>

datatype operation =
    GetConnection string
  | Connect string PortConfig bool "string option" nat
  | Disconnect string
  | Send string string string "string option" nat
  | GetBuffer string int "int option"
  | ClearBuffer string
  | GetStatus "string option" bool
  | RemoveChannel string
  | PortData string StringDecoder Buffer nat
  | PortError string string

text \<open>The manager after one operation; an operation that throws leaves it as it was. What
  an operation takes from outside the manager comes with it: the clock, whether the
  serialport package is there, the error of the port if any, the string decoder.\<close>

fun exec :: "SerialManager \<Rightarrow> operation \<Rightarrow> SerialManager" where
  "exec m (GetConnection cid) = snd (getConnection cid m)"
| "exec m (Connect cid pc av oe now) = snd (connect cid pc av oe now m)"
| "exec m (Disconnect cid) = disconnect cid m"
| "exec m (Send cid d md we now) =
     (case send cid d md we now m of Inl e \<Rightarrow> m | Inr m' \<Rightarrow> m')"
| "exec m (GetBuffer cid start count) = m"
| "exec m (ClearBuffer cid) = clearBuffer cid m"
| "exec m (GetStatus arg av) = m"
| "exec m (RemoveChannel cid) = removeChannel cid m"
| "exec m (PortData cid dec chunk now) = port_data dec cid chunk now m"
| "exec m (PortError cid msg) = port_error cid msg m"

definition run_ops :: "SerialManager \<Rightarrow> operation list \<Rightarrow> SerialManager" where
  "run_ops m ops = foldl exec m ops"


section \<open>The decoder registry (plugin-loader.js)\<close>

datatype scalar = SNum int | SStr string | SBool bool

text \<open>What a decoder returns when it recognises the bytes:
  \<open>{ protocol, fields: {...}, display }\<close>; the property \<open>fields\<close> is the field
  \<open>frame_fields\<close>.\<close>

record DecodedFrame =
  protocol :: string
  frame_fields :: "(string \<times> scalar) list"
  display :: string

text \<open>One call of \<open>plugin.decode(data)\<close>: it throws, or returns \<open>null\<close>, or returns a
  frame.\<close>

datatype decode_outcome = Throws | Null | Frame DecodedFrame

record Plugin =
  name :: string
  description :: "string option"
  decode :: "Buffer \<Rightarrow> decode_outcome"

text \<open>\<open>{ plugin: plugin.name, ...result }\<close>.\<close>

record DecodedResult = DecodedFrame +
  plugin :: string

definition attach :: "string \<Rightarrow> DecodedFrame \<Rightarrow> DecodedResult" where
  "attach n f = \<lparr>protocol = protocol f, frame_fields = frame_fields f, display = display f, plugin = n\<rparr>"

text \<open>One turn of the loop of \<open>decodeAll\<close>: the \<open>try\<close> block with its empty \<open>catch\<close>.\<close>

definition decode_step :: "Buffer \<Rightarrow> DecodedResult list \<Rightarrow> Plugin \<Rightarrow> DecodedResult list" where
  "decode_step d results p =
     (case decode p d of
        Frame f \<Rightarrow> results @ [attach (name p) f]
      | Null \<Rightarrow> results
      | Throws \<Rightarrow> results)"

definition decodeAll :: "Plugin list \<Rightarrow> Buffer \<Rightarrow> DecodedResult list" where
  "decodeAll plugins d = foldl (decode_step d) [] plugins"

subsection \<open>The Modbus RTU decoder of the plugins directory\<close>

text \<open>Numbers as text: \<open>n.toString(16)\<close>, a number in a template literal,
  \<open>s.padStart(w, c)\<close> and \<open>buffer.toString('hex')\<close>.\<close>

definition hex_digit :: "nat \<Rightarrow> char" where
  "hex_digit n = ''0123456789abcdef'' ! n"

function toString16 :: "nat \<Rightarrow> string" where
  "toString16 n = (if n < 16 then [hex_digit n] else toString16 (n div 16) @ [hex_digit (n mod 16)])"
  by pat_completeness auto
termination
  by (relation "measure id") auto

declare toString16.simps [simp del]

function toString10 :: "nat \<Rightarrow> string" where
  "toString10 n = (if n < 10 then [hex_digit n] else toString10 (n div 10) @ [hex_digit (n mod 10)])"
  by pat_completeness auto
termination
  by (relation "measure id") auto

declare toString10.simps [simp del]

definition padStart :: "nat \<Rightarrow> char \<Rightarrow> string \<Rightarrow> string" where
  "padStart w c s = replicate (w - length s) c @ s"

definition toString_hex :: "Buffer \<Rightarrow> string" where
  "toString_hex b = concat (map (\<lambda>x. padStart 2 (CHR ''0'') (toString16 x)) b)"

text \<open>\<open>_crc16\<close>: one turn of the inner loop, then the whole.\<close>

definition crc_shift :: "nat \<Rightarrow> nat" where
  "crc_shift crc = (if crc AND 1 \<noteq> 0 then drop_bit 1 crc XOR 0xA001 else drop_bit 1 crc)"

definition crc16 :: "Buffer \<Rightarrow> nat" where
  "crc16 b = foldl (\<lambda>crc x. (crc_shift ^^ 8) (crc XOR x)) 0xFFFF b"

definition functionNames :: "nat \<Rightarrow> string option" where
  "functionNames n =
     (if n = 0x01 then Some ''Read Coils''
      else if n = 0x02 then Some ''Read Discrete Inputs''
      else if n = 0x03 then Some ''Read Holding Registers''
      else if n = 0x04 then Some ''Read Input Registers''
      else if n = 0x05 then Some ''Write Single Coil''
      else if n = 0x06 then Some ''Write Single Register''
      else if n = 0x0F then Some ''Write Multiple Coils''
      else if n = 0x10 then Some ''Write Multiple Registers''
      else if n = 0x17 then Some ''Read/Write Multiple Registers''
      else None)"

text \<open>\<open>a || d\<close> for a name that may be missing.\<close>

definition or_else :: "string option \<Rightarrow> string \<Rightarrow> string" where
  "or_else v d = (case v of None \<Rightarrow> d | Some s \<Rightarrow> s)"

definition modbus_decode :: "Buffer \<Rightarrow> decode_outcome" where
  "modbus_decode d =
     (if length d < 4 then Null
      else
        let slaveAddr = d ! 0;
            funcCode = d ! 1;
            crcReceived = d ! (length d - 2) + 256 * d ! (length d - 1);
            crcCalculated = crc16 (take (length d - 2) d);
            crcValid = (crcReceived = crcCalculated);
            isException = (funcCode AND 0x80 \<noteq> 0);
            baseFuncCode = (if isException then funcCode AND 0x7F else funcCode)
        in if functionNames baseFuncCode = None \<and> \<not> isException then Null
           else
             let payload = drop 2 (take (length d - 2) d)
             in Frame
                  \<lparr>protocol = ''Modbus RTU'',
                   frame_fields =
                     [(''slaveAddress'', SNum (int slaveAddr)),
                      (''functionCode'', SStr (''0x'' @ padStart 2 (CHR ''0'') (toString16 funcCode))),
                      (''functionName'',
                         SStr (if isException
                               then ''Exception ('' @ or_else (functionNames baseFuncCode) ''Unknown'' @ '')''
                               else or_else (functionNames funcCode) ''Unknown'')),
                      (''isException'', SBool isException),
                      (''payload'', SStr (toString_hex payload)),
                      (''payloadLength'', SNum (int (length payload))),
                      (''crcReceived'', SStr (''0x'' @ padStart 4 (CHR ''0'') (toString16 crcReceived))),
                      (''crcValid'', SBool crcValid)],
                   display =
                     ''[Modbus] Slave:'' @ toString10 slaveAddr @ '' Func:''
                       @ or_else (functionNames baseFuncCode) (''0x'' @ toString16 baseFuncCode)
                       @ '' '' @ (if isException then ''EXCEPTION'' else '''')
                       @ '' CRC:'' @ (if crcValid then ''OK'' else ''FAIL'')\<rparr>)"

definition modbus_plugin :: Plugin where
  "modbus_plugin =
     \<lparr>name = ''Modbus RTU'',
      description = Some ''Decodes Modbus RTU protocol frames (function codes, addresses, CRC)'',
      decode = modbus_decode\<rparr>"

section \<open>The WebSocket handler (ws-handler.js)\<close>

text \<open>The messages the handler broadcasts that the properties below are about;
  \<open>decoded\<close> is \<open>None\<close> when the field is \<open>undefined\<close> and so left out of the JSON.\<close>

datatype ws_message =
    SerialData string LineEntry "DecodedResult list option"
  | SerialCleared string

fun decoded :: "ws_message \<Rightarrow> DecodedResult list option" where
  "decoded (SerialData cid entry d) = d"
| "decoded (SerialCleared cid) = None"

text \<open>The listener \<open>serialManager.on('line', (channelId, entry) => ...)\<close>: the message it
  broadcasts.\<close>

definition on_line :: "Plugin list \<Rightarrow> string \<Rightarrow> LineEntry \<Rightarrow> ws_message" where
  "on_line plugins cid entry =
     (let dec = decodeAll plugins (utf8 (data entry))
      in SerialData cid entry (if length dec > 0 then Some dec else None))"

text \<open>\<open>msg.channelId || 'default'\<close>.\<close>

definition channel_of :: "string option \<Rightarrow> string" where
  "channel_of arg = (case arg of None \<Rightarrow> ''default'' | Some cid \<Rightarrow> if cid = [] then ''default'' else cid)"

text \<open>The case \<open>'serial:clear'\<close> of \<open>handleMessage\<close>: the manager after it, and what is
  broadcast.\<close>

definition handle_serial_clear :: "string option \<Rightarrow> SerialManager \<Rightarrow> SerialManager \<times> ws_message list" where
  "handle_serial_clear arg m =
     (let cid = channel_of arg in (clearBuffer cid m, [SerialCleared cid]))"

text \<open>The route \<open>POST /clear\<close> of api-routes.js: the manager after it, and what is
  broadcast.\<close>

definition post_clear :: "string option \<Rightarrow> SerialManager \<Rightarrow> SerialManager \<times> ws_message list" where
  "post_clear arg m = (clearBuffer (channel_of arg) m, [])"

section \<open>The macro engine (macro-engine.js)\<close>

text \<open>A command of a macro. A property that is missing behaves in \<open>run\<close> as the empty
  string or zero, which are falsy as well.\<close>

record Command =
  cmd_data :: string
  cmd_mode :: string
  cmd_delayMs :: int

record Macro =
  macro_id :: string
  macro_name :: string
  commands :: "Command list"
  repeatCount :: int
  params :: "string list"
  createdAt :: nat
  updatedAt :: nat

text \<open>
  \<open>data.replace(new RegExp(`\\{\\{${key}\\}\\}`, 'g'), value)\<close>. For a key made of
  letters, digits and underscores the pattern matches the text \<open>{{key}}\<close> and nothing
  else, and has no group. Every match is replaced, scanning from the left and resuming
  after each match. What replaces a match is \<open>value\<close> with its replacement patterns
  expanded: \<open>$$\<close> is a dollar sign, \<open>$&\<close> the text matched, \<open>$`\<close> the part of \<open>data\<close>
  before the match and \<open>$'\<close> the part after it; as the pattern has no group, a dollar
  sign before anything else stands for itself.

  A key with a character that is special in a regular expression makes another pattern,
  which is not modelled: \<open>replace_placeholder\<close> and \<open>inject\<close> are what the code does for
  the keys that satisfy \<open>plain_key\<close>.
\<close>

definition placeholder :: "string \<Rightarrow> string" where
  "placeholder key = ''{{'' @ key @ ''}}''"

fun substitution :: "string \<Rightarrow> string \<Rightarrow> string \<Rightarrow> string \<Rightarrow> string" where
  "substitution before matched after [] = []"
| "substitution before matched after [c] = [c]"
| "substitution before matched after (c # e # r) =
     (if c = CHR ''$'' then
        (if e = CHR ''$'' then CHR ''$'' # substitution before matched after r
         else if e = CHR ''&'' then matched @ substitution before matched after r
         else if e = CHR 0x60 then before @ substitution before matched after r
         else if e = CHR 0x27 then after @ substitution before matched after r
         else c # substitution before matched after (e # r))
      else c # substitution before matched after (e # r))"

text \<open>The scan of \<open>replace\<close>: \<open>before\<close> is the part of \<open>data\<close> already passed, the last
  argument the part still to scan.\<close>

function replace_from :: "string \<Rightarrow> string \<Rightarrow> string \<Rightarrow> string \<Rightarrow> string" where
  "replace_from key v before [] = []"
| "replace_from key v before (c # cs) =
     (if take (length (placeholder key)) (c # cs) = placeholder key
      then substitution before (placeholder key) (drop (length (placeholder key)) (c # cs)) v
             @ replace_from key v (before @ placeholder key)
                 (drop (length (placeholder key)) (c # cs))
      else c # replace_from key v (before @ [c]) cs)"
  by pat_completeness auto
termination
  by (relation "measure (\<lambda>(key, v, before, s). length s)") (auto simp: placeholder_def)

definition replace_placeholder :: "string \<Rightarrow> string \<Rightarrow> string \<Rightarrow> string" where
  "replace_placeholder key v s = replace_from key v [] s"

definition word_char :: "char \<Rightarrow> bool" where
  "word_char c = (let n = code c in
     (48 \<le> n \<and> n \<le> 57) \<or> (65 \<le> n \<and> n \<le> 90) \<or> (97 \<le> n \<and> n \<le> 122) \<or> n = 95)"

definition plain_key :: "string \<Rightarrow> bool" where
  "plain_key key = list_all word_char key"

text \<open>The loop over \<open>Object.entries(params)\<close>.\<close>

definition inject :: "(string \<times> string) list \<Rightarrow> string \<Rightarrow> string" where
  "inject ps d = foldl (\<lambda>acc kv. replace_placeholder (fst kv) (snd kv) acc) d ps"

text \<open>What \<open>run\<close> does, in order: a call of \<open>serialManager.send\<close> that returned, or a
  suspension on \<open>setTimeout\<close>.\<close>

datatype action = Sent string string string | Slept int

definition mode_or_ascii :: "string \<Rightarrow> string" where
  "mode_or_ascii md = (if md = [] then ''ascii'' else md)"

text \<open>The inner loop \<open>for (const cmd of macro.commands)\<close>. The serial manager is the
  argument \<open>sender\<close>, its \<open>send\<close> a function on its state that throws (\<open>Inl\<close>) or returns. The
  result is the exception if one was thrown, the manager, and the actions so far.\<close>

fun run_commands ::
  "(string \<Rightarrow> string \<Rightarrow> string \<Rightarrow> 's \<Rightarrow> error + 's) \<Rightarrow> (string \<times> string) list \<Rightarrow> string
     \<Rightarrow> Command list \<Rightarrow> 's \<Rightarrow> action list \<Rightarrow> error option \<times> 's \<times> action list" where
  "run_commands sender ps cid [] s tr = (None, s, tr)"
| "run_commands sender ps cid (cmd # cmds) s tr =
     (let d = inject ps (cmd_data cmd)
      in case sender cid d (mode_or_ascii (cmd_mode cmd)) s of
           Inl e \<Rightarrow> (Some e, s, tr)
         | Inr s' \<Rightarrow>
             run_commands sender ps cid cmds s'
               (tr @ [Sent cid d (mode_or_ascii (cmd_mode cmd))]
                   @ (if cmd_delayMs cmd > 0 then [Slept (cmd_delayMs cmd)] else [])))"

text \<open>The outer loop \<open>for (let r = 0; r < repeatCount; r++)\<close>, on the number of turns
  left.\<close>

fun run_repeat ::
  "(string \<Rightarrow> string \<Rightarrow> string \<Rightarrow> 's \<Rightarrow> error + 's) \<Rightarrow> (string \<times> string) list \<Rightarrow> string
     \<Rightarrow> Command list \<Rightarrow> nat \<Rightarrow> 's \<Rightarrow> action list \<Rightarrow> error option \<times> 's \<times> action list" where
  "run_repeat sender ps cid cmds 0 s tr = (None, s, tr)"
| "run_repeat sender ps cid cmds (Suc n) s tr =
     (case run_commands sender ps cid cmds s tr of
        (Some e, s', tr') \<Rightarrow> (Some e, s', tr')
      | (None, s', tr') \<Rightarrow> run_repeat sender ps cid cmds n s' tr')"

definition run ::
  "Macro list \<Rightarrow> string \<Rightarrow> (string \<Rightarrow> string \<Rightarrow> string \<Rightarrow> 's \<Rightarrow> error + 's)
     \<Rightarrow> (string \<times> string) list \<Rightarrow> string \<Rightarrow> 's \<Rightarrow> error option \<times> 's \<times> action list" where
  "run macros mid sender ps cid s =
     (case find (\<lambda>m. macro_id m = mid) macros of
        None \<Rightarrow> (Some MacroNotFound, s, [])
      | Some macro \<Rightarrow>
          let rc = (if repeatCount macro = 0 then 1 else repeatCount macro)
          in run_repeat sender ps cid (commands macro) (nat rc) s [])"

section \<open>Invariants and sample values\<close>

text \<open>The bound of the ring buffer, on one connection and on every connection of a
  manager.\<close>

definition conn_ok :: "SerialConnection \<Rightarrow> bool" where
  "conn_ok c = (MAX_BUFFER_LINES c = 10000000 \<and> length (buffer c) \<le> 10000000)"

definition capped :: "SerialManager \<Rightarrow> bool" where
  "capped m = (\<forall>cid c. connections m cid = Some c \<longrightarrow> conn_ok c)"

text \<open>Values for the examples: a port configuration, a received entry of channel \<open>a\<close>,
  and a connection whose buffer is full.\<close>

definition pc0 :: PortConfig where
  "pc0 = \<lparr>path = ''/dev/ttyUSB0'', baudRate = 115200, dataBits = 8, stopBits = ''1'',
          parity = ''none'', rtscts = False, xon = False, xoff = False, autoOpen = False\<rparr>"

definition rx_entry :: "nat \<Rightarrow> nat \<Rightarrow> string \<Rightarrow> LineEntry" where
  "rx_entry t i d =
     \<lparr>timestamp = t, direction = rx, data = d, mode = None, index = i, channelId = ''a''\<rparr>"

definition full_conn :: SerialConnection where
  "full_conn = (new_SerialConnection ''a'')\<lparr>buffer := replicate 10000000 (rx_entry 0 0 ''x'')\<rparr>"

text \<open>A manager with the channel \<open>a\<close> open after the device sent \<open>hi\<close> and a line feed,
  and the connection of that channel.\<close>

definition open_manager :: SerialManager where
  "open_manager = run_ops new_SerialManager
     [Connect ''a'' pc0 True None 5, PortData ''a'' sample_decoder [104, 105, 10] 6]"

definition open_conn :: SerialConnection where
  "open_conn =
     \<lparr>conn_channelId = ''a'', port = Some pc0, parser = Some new_ReadlineParser,
      config = Some pc0,
      connected = True,
      stats = \<lparr>bytesRx = 3, bytesTx = 0, linesRx = 1, linesTx = 0, errors = 0,
               connectedAt = Some 5\<rparr>,
      MAX_BUFFER_LINES = 10000000, buffer = [rx_entry 6 0 ''hi''], bufferIndex = 1\<rparr>"

text \<open>The operations that call \<open>getConnection\<close>.\<close>

fun inserting :: "operation \<Rightarrow> bool" where
  "inserting (GetConnection cid) = True"
| "inserting (Connect cid pc av oe now) = True"
| "inserting x = False"

text \<open>A text whose UTF-8 bytes are \<open>c3 a9 31 32\<close>, a sent and a received entry that carry
  it, and a decoder that always throws.\<close>

definition e_acute_12 :: string where
  "e_acute_12 = [CHR 0xE9, CHR ''1'', CHR ''2'']"

definition tx_entry :: "nat \<Rightarrow> nat \<Rightarrow> string \<Rightarrow> string \<Rightarrow> LineEntry" where
  "tx_entry t i d md =
     \<lparr>timestamp = t, direction = tx, data = d, mode = Some md, index = i, channelId = ''a''\<rparr>"

definition broken_plugin :: Plugin where
  "broken_plugin = \<lparr>name = ''Broken'', description = None, decode = (\<lambda>b. Throws)\<rparr>"

section \<open>Notions for stating what the encodings do\<close>

text \<open>The value of a hexadecimal digit (0 for another character), the test that a pair
  is two hexadecimal digits, and a text cut into pairs (a last single character is left
  out).\<close>

definition hex_value :: "char \<Rightarrow> nat" where
  "hex_value c = (case unhex c of None \<Rightarrow> 0 | Some v \<Rightarrow> v)"

definition hex_pair :: "char \<times> char \<Rightarrow> bool" where
  "hex_pair p = (unhex (fst p) \<noteq> None \<and> unhex (snd p) \<noteq> None)"

fun pairs :: "'a list \<Rightarrow> ('a \<times> 'a) list" where
  "pairs (a # b # rest) = (a, b) # pairs rest"
| "pairs _ = []"

text \<open>A list cut into groups of eight; the last group has what is left.\<close>

function groups8 :: "'a list \<Rightarrow> 'a list list" where
  "groups8 xs = (if xs = [] then [] else take 8 xs # groups8 (drop 8 xs))"
  by pat_completeness auto
termination
  by (relation "measure length") auto

declare groups8.simps [simp del]

section \<open>Notions for stating what a macro run does\<close>

text \<open>What one command contributes to a run: the call of \<open>send\<close>, then the suspension if
  its \<open>delayMs\<close> is positive.\<close>

definition actions_of :: "(string \<times> string) list \<Rightarrow> string \<Rightarrow> Command \<Rightarrow> action list" where
  "actions_of ps cid cmd =
     Sent cid (inject ps (cmd_data cmd)) (mode_or_ascii (cmd_mode cmd))
       # (if cmd_delayMs cmd > 0 then [Slept (cmd_delayMs cmd)] else [])"

text \<open>The manager's \<open>send\<close> as the macro engine calls it, with writes that succeed at
  time 7; the channel a run needs; and two macros.\<close>

definition sender0 :: "string \<Rightarrow> string \<Rightarrow> string \<Rightarrow> SerialManager \<Rightarrow> error + SerialManager" where
  "sender0 cid d md m = send cid d md None 7 m"

definition channel_open :: "string \<Rightarrow> SerialManager \<Rightarrow> bool" where
  "channel_open cid m =
     (case connections m cid of None \<Rightarrow> False | Some c \<Rightarrow> port c \<noteq> None \<and> connected c)"

definition macro1 :: Macro where
  "macro1 =
     \<lparr>macro_id = ''m1'', macro_name = ''set and go'',
      commands = [\<lparr>cmd_data = ''SET {{x}}'', cmd_mode = ''ascii'', cmd_delayMs = 10\<rparr>,
                  \<lparr>cmd_data = ''GO'', cmd_mode = ''ascii'', cmd_delayMs = 0\<rparr>],
      repeatCount = 2, params = [''x''], createdAt = 0, updatedAt = 0\<rparr>"

definition macro2 :: Macro where
  "macro2 =
     \<lparr>macro_id = ''m2'', macro_name = ''go'',
      commands = [\<lparr>cmd_data = ''GO'', cmd_mode = ''ascii'', cmd_delayMs = 10\<rparr>],
      repeatCount = 1, params = [], createdAt = 0, updatedAt = 0\<rparr>"

section \<open>Notions for stating what the line parser does\<close>




section \<open>The ring buffer is bounded\<close>

lemma conn_ok_new: "conn_ok (new_SerialConnection cid)"
  by (simp add: conn_ok_def new_SerialConnection_def)

lemma conn_ok_addToBuffer: "conn_ok c \<Longrightarrow> conn_ok (addToBuffer e c)"
  by (auto simp: conn_ok_def addToBuffer_def Let_def)

lemma conn_ok_upd:
  "conn_ok (c\<lparr>connected := a\<rparr>) = conn_ok c"
  "conn_ok (c\<lparr>port := b\<rparr>) = conn_ok c"
  "conn_ok (c\<lparr>parser := d\<rparr>) = conn_ok c"
  "conn_ok (c\<lparr>config := f\<rparr>) = conn_ok c"
  "conn_ok (c\<lparr>stats := g\<rparr>) = conn_ok c"
  "conn_ok (c\<lparr>bufferIndex := h\<rparr>) = conn_ok c"
  by (simp_all add: conn_ok_def)

lemma conn_ok_clear: "conn_ok c \<Longrightarrow> conn_ok (c\<lparr>buffer := [], bufferIndex := 0\<rparr>)"
  by (simp add: conn_ok_def)

lemma capped_set_conn: "capped m \<Longrightarrow> conn_ok c \<Longrightarrow> capped (set_conn cid c m)"
  by (simp add: capped_def set_conn_def)

lemma capped_emit: "capped (emit e m) = capped m"
  by (simp add: capped_def emit_def)

lemma capped_writes: "capped (m\<lparr>writes := w\<rparr>) = capped m"
  by (simp add: capped_def)

lemma capped_conn: "capped m \<Longrightarrow> connections m cid = Some c \<Longrightarrow> conn_ok c"
  by (simp add: capped_def)

lemma capped_getConnection: "capped m \<Longrightarrow> capped (snd (getConnection cid m))"
  by (cases "connections m cid") (simp_all add: getConnection_def capped_set_conn conn_ok_new)

lemma conn_ok_getConnection: "capped m \<Longrightarrow> conn_ok (fst (getConnection cid m))"
  by (cases "connections m cid") (simp_all add: getConnection_def conn_ok_new capped_conn)

lemma capped_disconnect:
  assumes "capped m"
  shows "capped (disconnect cid m)"
proof (cases "connections m cid")
  case None
  with assms show ?thesis by (simp add: disconnect_def)
next
  case (Some c)
  with assms have "conn_ok c" by (simp add: capped_conn)
  with assms Some show ?thesis
    by (simp add: disconnect_def capped_emit capped_set_conn conn_ok_upd)
qed

lemma capped_connect:
  assumes a: "capped m"
  shows "capped (snd (connect cid pc av oe now m))"
proof -
  obtain c0 m1 where g: "getConnection cid m = (c0, m1)"
    by (cases "getConnection cid m")
  from a g have m1: "capped m1" and c0: "conn_ok c0"
    using capped_getConnection [of m cid] conn_ok_getConnection [of m cid] by simp_all
  define m2 where "m2 = (if connected c0 then disconnect cid m1 else m1)"
  have m2: "capped m2"
    using m1 by (simp add: m2_def capped_disconnect)
  define c2 where "c2 = (case connections m2 cid of None \<Rightarrow> c0 | Some c \<Rightarrow> c)"
  have c2: "conn_ok c2"
    using c0 m2 by (cases "connections m2 cid") (simp_all add: c2_def capped_conn)
  have "connect cid pc av oe now m =
      (if \<not> av then (Inl SerialportNotInstalled, m)
       else case oe of
              Some msg \<Rightarrow> (Inl (OpenFailed msg),
                           set_conn cid (c2\<lparr>port := Some pc, connected := False\<rparr>) m2)
            | None \<Rightarrow> (Inr pc, emit (ConnectedEv cid pc)
                  (set_conn cid (c2\<lparr>port := Some pc, config := Some pc, connected := True,
                         stats := zero_stats\<lparr>connectedAt := Some now\<rparr>,
                         parser := Some new_ReadlineParser\<rparr>) m2)))"
    unfolding m2_def c2_def by (simp add: connect_def g Let_def)
  then show ?thesis
    using a m2 c2
    by (cases oe) (simp_all add: capped_emit capped_set_conn conn_ok_upd)
qed

lemma capped_port_error:
  assumes "capped m"
  shows "capped (port_error cid msg m)"
proof (cases "connections m cid")
  case None
  with assms show ?thesis by (simp add: port_error_def)
next
  case (Some c)
  with assms have "conn_ok c" by (simp add: capped_conn)
  with assms Some show ?thesis
    by (simp add: port_error_def capped_emit capped_set_conn conn_ok_upd)
qed

lemma capped_send:
  assumes "capped m" and "send cid d md we now m = Inr m'"
  shows "capped m'"
proof (cases "connections m cid")
  case None
  with assms show ?thesis by (simp add: send_def)
next
  case (Some c)
  with assms have ok: "conn_ok c" by (simp add: capped_conn)
  show ?thesis
  proof (cases we)
    case None
    with assms Some ok show ?thesis
      by (auto simp: send_def Let_def capped_emit capped_writes conn_ok_upd
          intro!: capped_set_conn conn_ok_addToBuffer split: if_splits)
  next
    case (Some msg)
    with assms \<open>connections m cid = Some c\<close> ok show ?thesis
      by (auto simp: send_def Let_def capped_emit capped_writes conn_ok_upd
          intro!: capped_port_error capped_set_conn split: if_splits)
  qed
qed

lemma capped_clearBuffer:
  assumes "capped m"
  shows "capped (clearBuffer cid m)"
proof (cases "connections m cid")
  case None
  with assms show ?thesis by (simp add: clearBuffer_def)
next
  case (Some c)
  with assms have "conn_ok c" by (simp add: capped_conn)
  with assms Some show ?thesis
    by (simp add: clearBuffer_def capped_set_conn conn_ok_clear)
qed

lemma capped_removeChannel: "capped m \<Longrightarrow> capped (removeChannel cid m)"
  using capped_disconnect [of m cid]
  by (auto simp: removeChannel_def Let_def capped_def)

lemma capped_on_parser_data:
  assumes "capped m"
  shows "capped (on_parser_data cid now m line)"
proof (cases "connections m cid")
  case None
  with assms show ?thesis by (simp add: on_parser_data_def)
next
  case (Some c)
  with assms have "conn_ok c" by (simp add: capped_conn)
  with assms Some show ?thesis
    by (simp add: on_parser_data_def Let_def capped_emit capped_set_conn conn_ok_upd
        conn_ok_addToBuffer)
qed

lemma capped_foldl_lines: "capped m \<Longrightarrow> capped (foldl (on_parser_data cid now) m ls)"
  by (induction ls arbitrary: m) (simp_all add: capped_on_parser_data)

lemma capped_port_data:
  assumes "capped m"
  shows "capped (port_data dec cid chunk now m)"
proof (cases "connections m cid")
  case None
  with assms show ?thesis by (simp add: port_data_def)
next
  case (Some c)
  with assms have "conn_ok c" by (simp add: capped_conn)
  with assms Some show ?thesis
    by (cases "parser c")
      (simp_all add: port_data_def Let_def capped_foldl_lines capped_emit capped_set_conn
        conn_ok_upd)
qed

lemma capped_exec: "capped m \<Longrightarrow> capped (exec m x)"
proof (cases x)
  case (Send cid d md we now)
  assume "capped m"
  with Send show ?thesis
    by (cases "send cid d md we now m") (simp_all add: capped_send)
qed (simp_all add: capped_getConnection capped_connect capped_disconnect capped_clearBuffer
      capped_removeChannel capped_port_data capped_port_error)

lemma capped_foldl_exec: "capped m \<Longrightarrow> capped (foldl exec m ops)"
  by (induction ops arbitrary: m) (simp_all add: capped_exec)

lemma capped_new: "capped new_SerialManager"
  by (simp add: capped_def new_SerialManager_def)

text \<open>
  C8. In every state the manager reaches from its start by any sequence of operations, the
  buffer of every channel holds at most 10,000,000 entries. An append to a full buffer
  removes the entry at the front and puts the new one at the back: the entries that stay
  are the same, with their \<open>index\<close> fields.
\<close>

theorem ring_buffer_cap:
  "(connections (run_ops new_SerialManager ops) cid = Some c \<longrightarrow>
      MAX_BUFFER_LINES c = 10000000 \<and> length (buffer c) \<le> 10000000) \<and>
   (MAX_BUFFER_LINES c' = 10000000 \<and> length (buffer c') = 10000000 \<longrightarrow>
      buffer (addToBuffer e c') = tl (buffer c') @ [e] \<and>
      length (buffer (addToBuffer e c')) = 10000000 \<and>
      map index (butlast (buffer (addToBuffer e c'))) = map index (tl (buffer c'))) \<and>
   (MAX_BUFFER_LINES c'' = 10000000 \<and> length (buffer c'') < 10000000 \<longrightarrow>
      buffer (addToBuffer e c'') = buffer c'' @ [e])"
proof -
  have "capped (run_ops new_SerialManager ops)"
    by (simp add: run_ops_def capped_foldl_exec capped_new)
  then have 1: "connections (run_ops new_SerialManager ops) cid = Some c \<longrightarrow>
      MAX_BUFFER_LINES c = 10000000 \<and> length (buffer c) \<le> 10000000"
    by (simp add: capped_def conn_ok_def)
  have 2: "MAX_BUFFER_LINES c' = 10000000 \<and> length (buffer c') = 10000000 \<longrightarrow>
      buffer (addToBuffer e c') = tl (buffer c') @ [e] \<and>
      length (buffer (addToBuffer e c')) = 10000000 \<and>
      map index (butlast (buffer (addToBuffer e c'))) = map index (tl (buffer c'))"
    by (simp add: addToBuffer_def Let_def)
  have 3: "MAX_BUFFER_LINES c'' = 10000000 \<and> length (buffer c'') < 10000000 \<longrightarrow>
      buffer (addToBuffer e c'') = buffer c'' @ [e]"
    by (simp add: addToBuffer_def Let_def)
  from 1 2 3 show ?thesis by blast
qed


lemmas manager_defs = run_ops_def new_SerialManager_def connect_def getConnection_def
  disconnect_def set_conn_def emit_def new_SerialConnection_def new_ReadlineParser_def
  zero_stats_def port_data_def transform_def transform_loop.simps data_events_def
  readable_push_def sample_decoder_def char_of_def bit_Suc_0_iff
  on_parser_data_def addToBuffer_def send_def port_error_def clearBuffer_def

lemma sample_run_state: "connections (run_ops new_SerialManager
       [Connect ''a'' pc0 True None 5, PortData ''a'' sample_decoder [104, 105, 10] 6]) ''a'' =
     Some \<lparr>conn_channelId = ''a'', port = Some pc0, parser = Some new_ReadlineParser,
           config = Some pc0, connected = True,
           stats = \<lparr>bytesRx = 3, bytesTx = 0, linesRx = 1, linesTx = 0, errors = 0,
                    connectedAt = Some 5\<rparr>,
           MAX_BUFFER_LINES = 10000000, buffer = [rx_entry 6 0 ''hi''], bufferIndex = 1\<rparr>"
  by (simp add: manager_defs rx_entry_def Let_def)

theorem ring_buffer_cap_witness:
  "connections (run_ops new_SerialManager
       [Connect ''a'' pc0 True None 5, PortData ''a'' sample_decoder [104, 105, 10] 6]) ''a'' =
     Some \<lparr>conn_channelId = ''a'', port = Some pc0, parser = Some new_ReadlineParser,
           config = Some pc0, connected = True,
           stats = \<lparr>bytesRx = 3, bytesTx = 0, linesRx = 1, linesTx = 0, errors = 0,
                    connectedAt = Some 5\<rparr>,
           MAX_BUFFER_LINES = 10000000, buffer = [rx_entry 6 0 ''hi''], bufferIndex = 1\<rparr> \<and>
   length [rx_entry 6 0 ''hi''] \<le> 10000000 \<and>
   MAX_BUFFER_LINES full_conn = 10000000 \<and> length (buffer full_conn) = 10000000 \<and>
   buffer (addToBuffer (rx_entry 7 10000000 ''y'') full_conn) =
     replicate 9999999 (rx_entry 0 0 ''x'') @ [rx_entry 7 10000000 ''y''] \<and>
   length (buffer (new_SerialConnection ''a'')) < 10000000 \<and>
   buffer (addToBuffer (rx_entry 7 10000000 ''y'') (new_SerialConnection ''a'')) =
     [rx_entry 7 10000000 ''y'']"
  using ring_buffer_cap [of "[Connect ''a'' pc0 True None 5, PortData ''a'' sample_decoder [104, 105, 10] 6]" "''a''"
    "\<lparr>conn_channelId = ''a'', port = Some pc0, parser = Some new_ReadlineParser,
           config = Some pc0, connected = True,
           stats = \<lparr>bytesRx = 3, bytesTx = 0, linesRx = 1, linesTx = 0, errors = 0,
                    connectedAt = Some 5\<rparr>,
           MAX_BUFFER_LINES = 10000000, buffer = [rx_entry 6 0 ''hi''], bufferIndex = 1\<rparr>"
    full_conn "rx_entry 7 10000000 ''y''" "new_SerialConnection ''a''"] sample_run_state
  by (simp add: full_conn_def new_SerialConnection_def)

section \<open>A sample state\<close>

lemma open_manager_conn: "connections open_manager ''a'' = Some open_conn"
  by (simp add: open_manager_def open_conn_def manager_defs rx_entry_def Let_def)


lemma open_manager_writes: "writes open_manager = []"
  by (simp add: open_manager_def open_conn_def manager_defs rx_entry_def Let_def)

section \<open>Failures of send\<close>



section \<open>clearBuffer\<close>

lemma clearBuffer_absent: "connections m cid = None \<Longrightarrow> clearBuffer cid m = m"
  by (simp add: clearBuffer_def)

lemma clearBuffer_present:
  "connections m cid = Some c \<Longrightarrow>
     clearBuffer cid m = m\<lparr>connections := (connections m)(cid \<mapsto> c\<lparr>buffer := [], bufferIndex := 0\<rparr>)\<rparr>"
  by (simp add: clearBuffer_def set_conn_def)

lemma clearBuffer_twice: "clearBuffer cid (clearBuffer cid m) = clearBuffer cid m"
  by (cases "connections m cid") (simp_all add: clearBuffer_def set_conn_def)

text \<open>
  What \<open>clearBuffer\<close> does to a channel that exists: the buffer is emptied and the next
  index set to 0; the statistics, \<open>connected\<close> and \<open>config\<close> stay, and a second call
  changes nothing more. The manager itself emits no event; the handler of the WebSocket
  message \<open>serial:clear\<close> broadcasts \<open>serial:cleared\<close> right after the call.
\<close>

lemma clearBuffer_effect:
  "connections m cid = Some c \<longrightarrow>
     (let c' = c\<lparr>buffer := [], bufferIndex := 0\<rparr>
      in connections (clearBuffer cid m) = (connections m)(cid \<mapsto> c') \<and>
         buffer c' = [] \<and> bufferIndex c' = 0 \<and> stats c' = stats c \<and>
         connected c' = connected c \<and> config c' = config c \<and>
         emitted (clearBuffer cid m) = emitted m \<and>
         clearBuffer cid (clearBuffer cid m) = clearBuffer cid m \<and>
         (cid \<noteq> [] \<longrightarrow>
            handle_serial_clear (Some cid) m = (clearBuffer cid m, [SerialCleared cid])))"
  by (simp add: clearBuffer_twice Let_def handle_serial_clear_def channel_of_def)
    (simp add: clearBuffer_def set_conn_def)

text \<open>
  C7. Clearing the buffer of a channel by the WebSocket message \<open>serial:clear\<close> empties
  it, resets the next index, leaves the statistics as they are, is idempotent, and
  publishes \<open>serial:cleared\<close>. The other path to \<open>clearBuffer\<close> does not publish: with
  the channel \<open>a\<close> holding one entry, the route \<open>POST /clear\<close> empties the buffer and
  resets the index as the message does, but the manager emits no event and nothing is
  broadcast, where the handler of the message broadcasts \<open>serial:cleared\<close> after the
  same call.
\<close>

theorem post_clear_publishes_nothing:
  "connections open_manager ''a'' = Some open_conn \<and> buffer open_conn = [rx_entry 6 0 ''hi''] \<and>
   post_clear (Some ''a'') open_manager = (clearBuffer ''a'' open_manager, []) \<and>
   connections (clearBuffer ''a'' open_manager) ''a'' =
     Some (open_conn\<lparr>buffer := [], bufferIndex := 0\<rparr>) \<and>
   stats (open_conn\<lparr>buffer := [], bufferIndex := 0\<rparr>) = stats open_conn \<and>
   emitted (clearBuffer ''a'' open_manager) = emitted open_manager \<and>
   clearBuffer ''a'' (clearBuffer ''a'' open_manager) = clearBuffer ''a'' open_manager \<and>
   handle_serial_clear (Some ''a'') open_manager =
     (clearBuffer ''a'' open_manager, [SerialCleared ''a''])"
  by (simp add: open_manager_conn clearBuffer_present clearBuffer_twice post_clear_def
      handle_serial_clear_def channel_of_def Let_def)
    (simp add: open_conn_def)

section \<open>Which operations add a channel\<close>

lemma dom_set_conn_present:
  "connections m cid = Some c \<Longrightarrow> dom (connections (set_conn cid c' m)) = dom (connections m)"
  by (auto simp: set_conn_def)

lemma dom_emit: "dom (connections (emit e m)) = dom (connections m)"
  by (simp add: emit_def)

lemma dom_disconnect: "dom (connections (disconnect cid m)) = dom (connections m)"
  by (cases "connections m cid") (simp_all add: disconnect_def dom_emit dom_set_conn_present)

lemma dom_send: "send cid d md we now m = Inr m' \<Longrightarrow> dom (connections m') = dom (connections m)"
  by (cases "connections m cid"; cases we)
    (auto simp: send_def port_error_def Let_def emit_def set_conn_def split: if_splits)

lemma dom_clearBuffer: "dom (connections (clearBuffer cid m)) = dom (connections m)"
  by (cases "connections m cid") (simp_all add: clearBuffer_def dom_set_conn_present)

lemma dom_removeChannel: "dom (connections (removeChannel cid m)) = dom (connections m) - {cid}"
  by (simp add: removeChannel_def Let_def dom_disconnect)

lemma dom_on_parser_data:
  "dom (connections (on_parser_data cid now m line)) = dom (connections m)"
  by (cases "connections m cid")
    (simp_all add: on_parser_data_def Let_def dom_emit dom_set_conn_present)

lemma dom_foldl_lines:
  "dom (connections (foldl (on_parser_data cid now) m ls)) = dom (connections m)"
  by (induction ls arbitrary: m) (simp_all add: dom_on_parser_data)

lemma dom_port_data: "dom (connections (port_data dec cid chunk now m)) = dom (connections m)"
proof (cases "connections m cid")
  case None
  then show ?thesis by (simp add: port_data_def)
next
  case (Some c)
  then show ?thesis
    by (cases "parser c")
      (simp_all add: port_data_def Let_def dom_foldl_lines dom_emit dom_set_conn_present)
qed

lemma dom_port_error: "dom (connections (port_error cid msg m)) = dom (connections m)"
  by (cases "connections m cid") (simp_all add: port_error_def dom_emit dom_set_conn_present)

lemma dom_getConnection:
  "dom (connections (snd (getConnection cid m))) = insert cid (dom (connections m))"
  by (cases "connections m cid") (auto simp: getConnection_def set_conn_def)

lemma dom_connect:
  "dom (connections (snd (connect cid pc True oe now m))) = insert cid (dom (connections m))"
proof -
  obtain c0 m1 where g: "getConnection cid m = (c0, m1)"
    by (cases "getConnection cid m")
  then have d1: "dom (connections m1) = insert cid (dom (connections m))"
    using dom_getConnection [of cid m] by simp
  define m2 where "m2 = (if connected c0 then disconnect cid m1 else m1)"
  have d2: "dom (connections m2) = insert cid (dom (connections m))"
    by (simp add: m2_def dom_disconnect d1)
  define c2 where "c2 = (case connections m2 cid of None \<Rightarrow> c0 | Some c \<Rightarrow> c)"
  have "connect cid pc True oe now m =
      (case oe of
              Some msg \<Rightarrow> (Inl (OpenFailed msg),
                           set_conn cid (c2\<lparr>port := Some pc, connected := False\<rparr>) m2)
            | None \<Rightarrow> (Inr pc, emit (ConnectedEv cid pc)
                  (set_conn cid (c2\<lparr>port := Some pc, config := Some pc, connected := True,
                         stats := zero_stats\<lparr>connectedAt := Some now\<rparr>,
                         parser := Some new_ReadlineParser\<rparr>) m2)))"
    unfolding m2_def c2_def by (simp add: connect_def g Let_def)
  then show ?thesis
    using d2 by (cases oe) (auto simp: dom_emit set_conn_def)
qed

lemma dom_exec: "\<not> inserting x \<Longrightarrow> dom (connections (exec m x)) \<subseteq> dom (connections m)"
proof (cases x)
  case (Send cid d md we now)
  then show ?thesis
    by (cases "send cid d md we now m") (simp_all add: dom_send)
qed (auto simp: dom_disconnect dom_clearBuffer dom_removeChannel dom_port_data dom_port_error)

text \<open>
  C10. For a channel id that is not in the map (and is not the empty string, which
  \<open>getStatus\<close> takes for no argument), \<open>getBuffer\<close> returns the empty list,
  \<open>getStatus\<close> the default snapshot, \<open>clearBuffer\<close> changes nothing, and the map is
  as before. No operation other than \<open>getConnection\<close> and \<open>connect\<close> adds a key to the
  map; these two add the id they are given.
\<close>

theorem lookups_do_not_create:
  "(connections m cid = None \<and> cid \<noteq> [] \<longrightarrow>
      getBuffer cid start count m = [] \<and>
      getStatus (Some cid) av m =
        One \<lparr>st_channelId = cid, st_connected = False, st_config = None,
             st_stats = \<lparr>bytesRx = 0, bytesTx = 0, linesRx = 0, linesTx = 0, errors = 0,
                         connectedAt = None\<rparr>,
             st_bufferSize = 0\<rparr> \<and>
      clearBuffer cid m = m \<and>
      exec m (GetBuffer cid start count) = m \<and>
      exec m (GetStatus (Some cid) av) = m \<and>
      exec m (ClearBuffer cid) = m) \<and>
   (\<not> inserting x \<longrightarrow> dom (connections (exec m x)) \<subseteq> dom (connections m)) \<and>
   dom (connections (snd (getConnection cid m))) = insert cid (dom (connections m)) \<and>
   dom (connections (snd (connect cid pc True oe now m))) = insert cid (dom (connections m))"
  by (simp add: dom_exec dom_getConnection dom_connect clearBuffer_absent)
    (simp add: getBuffer_def getStatus_def zero_stats_def)

theorem lookups_do_not_create_witness:
  "connections open_manager ''b'' = None \<and> ''b'' \<noteq> [] \<and>
   getBuffer ''b'' 0 None open_manager = [] \<and>
   clearBuffer ''b'' open_manager = open_manager \<and>
   \<not> inserting (Send ''a'' ''AT'' ''ascii'' None 7) \<and>
   dom (connections (exec open_manager (Send ''a'' ''AT'' ''ascii'' None 7)))
     \<subseteq> dom (connections open_manager)"
proof -
  have "connections open_manager ''b'' = None"
    by (simp add: open_manager_def manager_defs Let_def)
  then show ?thesis
    using lookups_do_not_create [of open_manager "''b''" 0 None True
        "Send ''a'' ''AT'' ''ascii'' None 7" pc0 None 0]
    by simp
qed

section \<open>The decoder registry\<close>

lemma foldl_decode_step:
  "foldl (decode_step d) acc ps =
     acc @ concat (map (\<lambda>p. case decode p d of Frame f \<Rightarrow> [attach (name p) f] | Null \<Rightarrow> [] | Throws \<Rightarrow> []) ps)"
  by (induction ps arbitrary: acc) (simp_all add: decode_step_def split: decode_outcome.splits)

lemma decodeAll_concat:
  "decodeAll ps d =
     concat (map (\<lambda>p. case decode p d of Frame f \<Rightarrow> [attach (name p) f] | Null \<Rightarrow> [] | Throws \<Rightarrow> []) ps)"
  by (simp add: decodeAll_def foldl_decode_step)

lemma decodeAll_empty_iff:
  "decodeAll ps d = [] \<longleftrightarrow> (\<forall>p\<in>set ps. \<forall>f. decode p d \<noteq> Frame f)"
  by (auto simp: decodeAll_concat split: decode_outcome.splits)

lemma utf8_e_acute: "utf8 e_acute_12 = [195, 169, 49, 50]"
  by (simp add: utf8_def utf8_unit_def code_def e_acute_12_def)

lemma modbus_frame_e_acute:
  "\<exists>f. decode modbus_plugin (utf8 e_acute_12) = Frame f \<and> protocol f = ''Modbus RTU''"
  by (simp add: utf8_e_acute modbus_plugin_def modbus_decode_def Let_def)

lemma modbus_nonempty: "decodeAll [modbus_plugin] (utf8 e_acute_12) \<noteq> []"
  using modbus_frame_e_acute by (auto simp: decodeAll_empty_iff)

lemma modbus_protocol: "map protocol (decodeAll [modbus_plugin] (utf8 e_acute_12)) = [''Modbus RTU'']"
  using modbus_frame_e_acute by (auto simp: decodeAll_concat attach_def)

lemma modbus_plugin_name:
  "map plugin (decodeAll [broken_plugin, modbus_plugin] (utf8 e_acute_12)) = [''Modbus RTU'']"
  using modbus_frame_e_acute
  by (auto simp: decodeAll_concat attach_def broken_plugin_def modbus_plugin_def)

text \<open>
  C9. \<open>decodeAll\<close> calls every registered decoder on the same bytes and returns, in the
  order of registration, one result for each decoder that returned a frame: the frame with
  the decoder's name attached (as the property \<open>plugin\<close>). A decoder that throws, like
  one that returns \<open>null\<close>, adds nothing, and the results of the decoders before and after
  it are the same as without it.
\<close>

theorem decodeAll_collects:
  "decodeAll plugins d =
     concat (map (\<lambda>p. case decode p d of
                          Frame f \<Rightarrow> [attach (name p) f]
                        | Null \<Rightarrow> []
                        | Throws \<Rightarrow> []) plugins) \<and>
   (decode q d = Throws \<longrightarrow> decodeAll (ps @ q # qs) d = decodeAll (ps @ qs) d) \<and>
   (decode q d = Null \<longrightarrow> decodeAll (ps @ q # qs) d = decodeAll (ps @ qs) d) \<and>
   (decode q d = Frame f \<longrightarrow>
      decodeAll (ps @ q # qs) d = decodeAll ps d @ attach (name q) f # decodeAll qs d) \<and>
   plugin (attach n f) = n \<and> protocol (attach n f) = protocol f \<and>
   frame_fields (attach n f) = frame_fields f \<and> display (attach n f) = display f"
  by (simp add: decodeAll_concat) (simp add: attach_def)


theorem decodeAll_collects_witness:
  "decode broken_plugin (utf8 e_acute_12) = Throws \<and>
   decodeAll ([] @ broken_plugin # [modbus_plugin]) (utf8 e_acute_12) =
     decodeAll ([] @ [modbus_plugin]) (utf8 e_acute_12) \<and>
   decode modbus_plugin [65, 84] = Null \<and>
   decodeAll ([broken_plugin] @ modbus_plugin # []) [65, 84] = decodeAll ([broken_plugin] @ []) [65, 84] \<and>
   map plugin (decodeAll [broken_plugin, modbus_plugin] (utf8 e_acute_12)) = [''Modbus RTU'']"
proof -
  have 1: "decode broken_plugin (utf8 e_acute_12) = Throws"
    by (simp add: broken_plugin_def)
  have 2: "decode modbus_plugin [65, 84] = Null"
    by (simp add: modbus_plugin_def modbus_decode_def)
  note 3 = modbus_plugin_name
  from 1 2 3 decodeAll_collects [of "[]" "utf8 e_acute_12" broken_plugin "[]" "[modbus_plugin]"]
    decodeAll_collects [of "[]" "[65, 84]" modbus_plugin "[broken_plugin]" "[]"]
  show ?thesis by simp
qed

section \<open>The decoded field of a line event\<close>

text \<open>
  C2, as amended. The message broadcast for a \<open>line\<close> event carries \<open>decoded\<close> exactly
  when at least one registered decoder returned a frame on the UTF-8 bytes of the entry's
  \<open>data\<close>, and then \<open>decoded\<close> is the result of \<open>decodeAll\<close>; the direction of the
  entry plays no part, so this holds for sent entries as for received ones.
\<close>

theorem line_event_decoded:
  "on_line plugins cid entry =
     SerialData cid entry
       (if decodeAll plugins (utf8 (data entry)) = [] then None
        else Some (decodeAll plugins (utf8 (data entry)))) \<and>
   (decoded (on_line plugins cid entry) \<noteq> None \<longleftrightarrow>
      (\<exists>p\<in>set plugins. \<exists>f. decode p (utf8 (data entry)) = Frame f))"
  by (simp add: on_line_def Let_def decodeAll_empty_iff)

theorem line_event_decoded_witness:
  "decoded (on_line [modbus_plugin] ''a'' (rx_entry 6 1 e_acute_12)) \<noteq> None \<and>
   decoded (on_line [modbus_plugin] ''a'' (rx_entry 6 0 ''hi'')) = None"
proof -
  have no: "\<forall>f. decode modbus_plugin (utf8 ''hi'') \<noteq> Frame f"
    by (simp add: modbus_plugin_def modbus_decode_def utf8_def utf8_unit_def code_def)
  have d1: "data (rx_entry 6 1 e_acute_12) = e_acute_12" and d2: "data (rx_entry 6 0 ''hi'') = ''hi''"
    by (simp_all add: rx_entry_def)
  from line_event_decoded [of "[modbus_plugin]" "''a''" "rx_entry 6 1 e_acute_12", THEN conjunct2]
    modbus_frame_e_acute
  have 1: "decoded (on_line [modbus_plugin] ''a'' (rx_entry 6 1 e_acute_12)) \<noteq> None"
    by (auto simp: rx_entry_def)
  from line_event_decoded [of "[modbus_plugin]" "''a''" "rx_entry 6 0 ''hi''", THEN conjunct2] no
  have 2: "decoded (on_line [modbus_plugin] ''a'' (rx_entry 6 0 ''hi'')) = None"
    by (simp only: d2 list.set bex_simps singleton_iff simp_thms)
  from 1 2 show ?thesis by simp
qed

text \<open>
  C2 as stated fails: sending the three characters \<open>e9 31 32\<close> (an e with acute accent,
  then \<open>12\<close>) in ascii mode on the open channel \<open>a\<close> emits a \<open>line\<close> event with a
  \<open>tx\<close> entry, and with the Modbus RTU decoder registered the message broadcast for it
  carries \<open>decoded\<close>: the UTF-8 bytes of the text are \<open>c3 a9 31 32\<close>, and the second
  byte has the exception bit set.
\<close>

theorem tx_line_decoded_counterexample:
  "\<not> isl (send ''a'' e_acute_12 ''ascii'' None 7 open_manager) \<and>
   last (emitted (projr (send ''a'' e_acute_12 ''ascii'' None 7 open_manager))) =
     LineEv ''a'' (tx_entry 7 1 e_acute_12 ''ascii'') \<and>
   direction (tx_entry 7 1 e_acute_12 ''ascii'') = tx \<and>
   decoded (on_line [modbus_plugin] ''a'' (tx_entry 7 1 e_acute_12 ''ascii'')) =
     Some (decodeAll [modbus_plugin] (utf8 e_acute_12)) \<and>
   map protocol (decodeAll [modbus_plugin] (utf8 e_acute_12)) = [''Modbus RTU'']"
proof -
  define M where "M = emit (LineEv ''a'' (tx_entry 7 1 e_acute_12 ''ascii''))
        (set_conn ''a''
           (addToBuffer (tx_entry 7 1 e_acute_12 ''ascii'')
              (open_conn\<lparr>stats := (stats open_conn)
                    \<lparr>bytesTx := bytesTx (stats open_conn) + length (encode ''ascii'' e_acute_12),
                     linesTx := linesTx (stats open_conn) + 1\<rparr>,
                  bufferIndex := bufferIndex open_conn + 1\<rparr>))
           (open_manager\<lparr>writes := writes open_manager @ [(''a'', encode ''ascii'' e_acute_12)]\<rparr>))"
  have s: "send ''a'' e_acute_12 ''ascii'' None 7 open_manager = Inr M"
    unfolding M_def
    by (simp add: send_def open_manager_conn Let_def tx_entry_def) (simp add: open_conn_def)
  have e: "last (emitted M) = LineEv ''a'' (tx_entry 7 1 e_acute_12 ''ascii'')"
    by (simp add: M_def emit_def)
  have t: "direction (tx_entry 7 1 e_acute_12 ''ascii'') = tx"
    and dt: "data (tx_entry 7 1 e_acute_12 ''ascii'') = e_acute_12"
    by (simp_all add: tx_entry_def)
  have d: "decoded (on_line [modbus_plugin] ''a'' (tx_entry 7 1 e_acute_12 ''ascii'')) =
     Some (decodeAll [modbus_plugin] (utf8 e_acute_12))"
    by (simp add: on_line_def Let_def tx_entry_def modbus_nonempty)
  from s e t d modbus_protocol show ?thesis by simp
qed

section \<open>The hex mode of send\<close>

lemma hex_decode_pairs:
  "hex_decode s = map (\<lambda>p. 16 * hex_value (fst p) + hex_value (snd p)) (takeWhile hex_pair (pairs s))"
  by (induction s rule: hex_decode.induct)
    (auto simp: hex_pair_def hex_value_def split: option.splits)

lemma hex_decode_wellformed:
  "even (length s) \<Longrightarrow> \<forall>c\<in>set s. unhex c \<noteq> None \<Longrightarrow> length (hex_decode s) = length s div 2"
  by (induction s rule: hex_decode.induct) (auto split: option.splits)

lemma send_open:
  "connections m cid = Some c \<Longrightarrow> port c \<noteq> None \<Longrightarrow> connected c \<Longrightarrow>
     send cid d md None now m =
       Inr (emit (LineEv cid \<lparr>timestamp = now, direction = tx, data = d, mode = Some md,
                                index = bufferIndex c, channelId = cid\<rparr>)
             (set_conn cid
                (addToBuffer \<lparr>timestamp = now, direction = tx, data = d, mode = Some md,
                                index = bufferIndex c, channelId = cid\<rparr>
                   (c\<lparr>stats := (stats c)\<lparr>bytesTx := bytesTx (stats c) + length (encode md d),
                                             linesTx := linesTx (stats c) + 1\<rparr>,
                       bufferIndex := bufferIndex c + 1\<rparr>))
                (m\<lparr>writes := writes m @ [(cid, encode md d)]\<rparr>)))"
  by (auto simp: send_def Let_def)

text \<open>
  C3, as amended. In hex mode all whitespace is removed from \<open>data\<close> and the rest is read
  in pairs of hexadecimal digits up to the first pair that is not two such digits (a last
  single digit is left out); the bytes read so far are what is written. A payload of an
  even number of hexadecimal digits gives one byte for each pair. No payload makes \<open>send\<close>
  fail: on an open channel whose write succeeds the call returns, for every \<open>data\<close>, and
  the manager after it is the one before with the bytes handed to the port, \<open>bytesTx\<close>
  raised by their number, \<open>linesTx\<close> and the next index raised by one, the \<open>tx\<close> entry
  with the text as given appended to the buffer (the oldest entry dropped if the buffer
  was full), and the \<open>line\<close> event of that entry emitted. This is what a send does in every
  mode, with the bytes of that mode.
\<close>

theorem hex_send_truncates:
  "encode ''hex'' d =
     map (\<lambda>p. 16 * hex_value (fst p) + hex_value (snd p))
       (takeWhile hex_pair (pairs (strip_ws d))) \<and>
   (\<forall>c\<in>set (strip_ws d). \<not> is_space c) \<and>
   (even (length (strip_ws d)) \<and> (\<forall>c\<in>set (strip_ws d). unhex c \<noteq> None) \<longrightarrow>
      length (encode ''hex'' d) = length (strip_ws d) div 2) \<and>
   (connections m cid = Some c \<and> port c \<noteq> None \<and> connected c \<longrightarrow>
      (let entry = \<lparr>timestamp = now, direction = tx, data = d, mode = Some ''hex'',
                      index = bufferIndex c, channelId = cid\<rparr>;
           c' = c\<lparr>stats := (stats c)\<lparr>bytesTx := bytesTx (stats c) + length (encode ''hex'' d),
                                        linesTx := linesTx (stats c) + 1\<rparr>,
                  bufferIndex := bufferIndex c + 1,
                  buffer := (if MAX_BUFFER_LINES c \<le> length (buffer c) then tl (buffer c)
                             else buffer c) @ [entry]\<rparr>
       in send cid d ''hex'' None now m =
            Inr (m\<lparr>connections := (connections m)(cid \<mapsto> c'),
                   emitted := emitted m @ [LineEv cid entry],
                   writes := writes m @ [(cid, encode ''hex'' d)]\<rparr>))) \<and>
   (connections m cid = Some c \<and> port c \<noteq> None \<and> connected c \<longrightarrow>
      (let entry = \<lparr>timestamp = now, direction = tx, data = d, mode = Some md,
                      index = bufferIndex c, channelId = cid\<rparr>;
           c' = c\<lparr>stats := (stats c)\<lparr>bytesTx := bytesTx (stats c) + length (encode md d),
                                        linesTx := linesTx (stats c) + 1\<rparr>,
                  bufferIndex := bufferIndex c + 1,
                  buffer := (if MAX_BUFFER_LINES c \<le> length (buffer c) then tl (buffer c)
                             else buffer c) @ [entry]\<rparr>
       in send cid d md None now m =
            Inr (m\<lparr>connections := (connections m)(cid \<mapsto> c'),
                   emitted := emitted m @ [LineEv cid entry],
                   writes := writes m @ [(cid, encode md d)]\<rparr>)))"
proof -
  have 1: "encode ''hex'' d =
     map (\<lambda>p. 16 * hex_value (fst p) + hex_value (snd p))
       (takeWhile hex_pair (pairs (strip_ws d)))"
    by (simp add: encode_def hex_decode_pairs)
  have 2: "\<forall>c\<in>set (strip_ws d). \<not> is_space c"
    by (simp add: strip_ws_def)
  have 3: "even (length (strip_ws d)) \<and> (\<forall>c\<in>set (strip_ws d). unhex c \<noteq> None) \<longrightarrow>
      length (encode ''hex'' d) = length (strip_ws d) div 2"
    by (simp add: encode_def hex_decode_wellformed)
  have 4: "connections m cid = Some c \<and> port c \<noteq> None \<and> connected c \<longrightarrow>
      (let entry = \<lparr>timestamp = now, direction = tx, data = d, mode = Some k,
                      index = bufferIndex c, channelId = cid\<rparr>;
           c' = c\<lparr>stats := (stats c)\<lparr>bytesTx := bytesTx (stats c) + length (encode k d),
                                        linesTx := linesTx (stats c) + 1\<rparr>,
                  bufferIndex := bufferIndex c + 1,
                  buffer := (if MAX_BUFFER_LINES c \<le> length (buffer c) then tl (buffer c)
                             else buffer c) @ [entry]\<rparr>
       in send cid d k None now m =
            Inr (m\<lparr>connections := (connections m)(cid \<mapsto> c'),
                   emitted := emitted m @ [LineEv cid entry],
                   writes := writes m @ [(cid, encode k d)]\<rparr>))" for k
    by (auto simp: send_open emit_def set_conn_def addToBuffer_def Let_def)
  from 1 2 3 4 [of "''hex''"] 4 [of md] show ?thesis
    by (intro conjI)
qed

theorem hex_send_truncates_witness:
  "connections open_manager ''a'' = Some open_conn \<and> port open_conn \<noteq> None \<and> connected open_conn \<and>
   even (length (strip_ws ''48 69'')) \<and> list_all (\<lambda>c. unhex c \<noteq> None) (strip_ws ''48 69'') \<and>
   length (encode ''hex'' ''48 69'') = 2 \<and>
   \<not> isl (send ''a'' ''48 69'' ''hex'' None 7 open_manager) \<and>
   writes (projr (send ''a'' ''48 69'' ''hex'' None 7 open_manager)) = [(''a'', [72, 105])] \<and>
   emitted (projr (send ''a'' ''48 69'' ''hex'' None 7 open_manager)) =
     emitted open_manager @ [LineEv ''a'' (tx_entry 7 1 ''48 69'' ''hex'')] \<and>
   map_option buffer (connections (projr (send ''a'' ''48 69'' ''hex'' None 7 open_manager)) ''a'') =
     Some [rx_entry 6 0 ''hi'', tx_entry 7 1 ''48 69'' ''hex''] \<and>
   map_option bufferIndex (connections (projr (send ''a'' ''48 69'' ''hex'' None 7 open_manager)) ''a'') =
     Some 2 \<and>
   map_option stats (connections (projr (send ''a'' ''48 69'' ''hex'' None 7 open_manager)) ''a'') =
     Some \<lparr>bytesRx = 3, bytesTx = 2, linesRx = 1, linesTx = 1, errors = 0, connectedAt = Some 5\<rparr>"
proof -
  have h: "connections open_manager ''a'' = Some open_conn \<and> port open_conn \<noteq> None \<and> connected open_conn"
    by (simp add: open_manager_conn) (simp add: open_conn_def)
  have e: "encode ''hex'' ''48 69'' = [72, 105]"
    by (simp add: encode_def strip_ws_def is_space_def code_def unhex_def)
  have w: "strip_ws ''48 69'' = ''4869''"
    by (simp add: strip_ws_def is_space_def code_def)
  have x: "even (length (strip_ws ''48 69'')) \<and> (\<forall>c\<in>set (strip_ws ''48 69''). unhex c \<noteq> None)"
    unfolding w by (simp add: unhex_def code_def)
  note t = hex_send_truncates [of "''48 69''" open_manager "''a''" open_conn 7 "''hex''"]
  have l: "length (encode ''hex'' ''48 69'') = 2"
    using t [THEN conjunct2, THEN conjunct2, THEN conjunct1, THEN mp, OF x]
    by (simp only: w) simp
  note s = t [THEN conjunct2, THEN conjunct2, THEN conjunct2, THEN conjunct1, THEN mp, OF h]
  have s1: "\<not> isl (send ''a'' ''48 69'' ''hex'' None 7 open_manager)"
    and s2: "writes (projr (send ''a'' ''48 69'' ''hex'' None 7 open_manager)) = [(''a'', [72, 105])]"
    and s3: "emitted (projr (send ''a'' ''48 69'' ''hex'' None 7 open_manager)) =
       emitted open_manager @ [LineEv ''a'' (tx_entry 7 1 ''48 69'' ''hex'')]"
    and s4: "map_option buffer (connections (projr (send ''a'' ''48 69'' ''hex'' None 7 open_manager)) ''a'') =
       Some [rx_entry 6 0 ''hi'', tx_entry 7 1 ''48 69'' ''hex'']"
    and s5: "map_option bufferIndex (connections (projr (send ''a'' ''48 69'' ''hex'' None 7 open_manager)) ''a'') =
       Some 2"
    and s6: "map_option stats (connections (projr (send ''a'' ''48 69'' ''hex'' None 7 open_manager)) ''a'') =
       Some \<lparr>bytesRx = 3, bytesTx = 2, linesRx = 1, linesTx = 1, errors = 0, connectedAt = Some 5\<rparr>"
    using s by (simp_all add: Let_def e open_manager_writes open_conn_def tx_entry_def)
  have x': "even (length (strip_ws ''48 69'')) \<and> list_all (\<lambda>c. unhex c \<noteq> None) (strip_ws ''48 69'')"
    using x by (simp add: list_all_iff)
  from h x' l s1 s2 s3 s4 s5 s6 show ?thesis by (intro conjI) simp_all
qed

text \<open>
  C3 as stated fails: for the malformed payload \<open>41zz\<close> the call does not fail; the byte
  \<open>0x41\<close> is written and the \<open>tx\<close> entry is emitted.
\<close>

theorem hex_malformed_counterexample:
  "\<not> isl (send ''a'' ''41zz'' ''hex'' None 7 open_manager) \<and>
   writes (projr (send ''a'' ''41zz'' ''hex'' None 7 open_manager)) = [(''a'', [65])] \<and>
   last (emitted (projr (send ''a'' ''41zz'' ''hex'' None 7 open_manager))) =
     LineEv ''a'' (tx_entry 7 1 ''41zz'' ''hex'')"
proof -
  have h: "connections open_manager ''a'' = Some open_conn" "port open_conn \<noteq> None"
      "connected open_conn" "bufferIndex open_conn = 1"
    by (simp_all add: open_manager_conn) (simp_all add: open_conn_def)
  have e: "encode ''hex'' ''41zz'' = [65]"
    by (simp add: encode_def strip_ws_def is_space_def code_def unhex_def)
  show ?thesis
    by (simp add: send_open [OF h(1-3)] h(4) e emit_def set_conn_def open_manager_writes tx_entry_def)
qed


section \<open>The binary mode of send\<close>

lemma bit_not_space: "is_bit c \<Longrightarrow> \<not> is_space c"
  by (auto simp: is_bit_def is_space_def code_def)

lemma groups8_Nil: "groups8 [] = []"
  by (simp add: groups8.simps)

lemma groups8_step: "xs \<noteq> [] \<Longrightarrow> groups8 xs = take 8 xs # groups8 (drop 8 xs)"
  by (subst groups8.simps) simp

lemma binary_bytes_Nil: "binary_bytes [] = []"
  by (simp add: binary_bytes.simps)

lemma binary_bytes_step:
  "bits \<noteq> [] \<Longrightarrow> binary_bytes bits = parseInt2 (take 8 bits) # binary_bytes (drop 8 bits)"
  by (subst binary_bytes.simps) simp

lemma binary_bytes_groups: "binary_bytes bits = map parseInt2 (groups8 bits)"
proof (induction bits rule: binary_bytes.induct)
  case (1 bits)
  then show ?case
    by (cases "bits = []")
      (simp_all add: binary_bytes_Nil groups8_Nil binary_bytes_step groups8_step)
qed

lemma groups8_set: "g \<in> set (groups8 xs) \<Longrightarrow> g \<noteq> [] \<and> length g \<le> 8 \<and> set g \<subseteq> set xs"
proof (induction xs arbitrary: g rule: groups8.induct)
  case (1 xs)
  show ?case
  proof (cases "xs = []")
    case True
    with "1.prems" show ?thesis by (simp add: groups8_Nil)
  next
    case False
    with "1.prems" have "g = take 8 xs \<or> g \<in> set (groups8 (drop 8 xs))"
      by (simp add: groups8_step)
    then show ?thesis
    proof
      assume "g = take 8 xs"
      with False show ?thesis by (auto dest: in_set_takeD)
    next
      assume "g \<in> set (groups8 (drop 8 xs))"
      with "1.IH" [OF False] show ?thesis by (auto dest: in_set_dropD)
    qed
  qed
qed

lemma length_groups8: "length (groups8 xs) = (length xs + 7) div 8"
proof (induction xs rule: groups8.induct)
  case (1 xs)
  show ?case
  proof (cases "xs = []")
    case True
    then show ?thesis by (simp add: groups8_Nil)
  next
    case False
    then have n: "1 \<le> length xs"
      by (cases xs) simp_all
    have step: "length (groups8 xs) = Suc ((length (drop 8 xs) + 7) div 8)"
      using "1.IH" [OF False] False by (simp add: groups8_step del: length_drop)
    show ?thesis
    proof (cases "length xs \<le> 8")
      case True
      with n have "(length xs + 7) div 8 = 1"
        by simp
      with True step show ?thesis by simp
    next
      case False
      then obtain k where k: "length xs = k + 8"
        by (metis add.commute le_add_diff_inverse nat_le_linear)
      then have "(length xs + 7) div 8 = Suc ((k + 7) div 8)"
        by simp
      with k step show ?thesis by simp
    qed
  qed
qed

lemma concat_groups8: "concat (groups8 xs) = xs"
proof (induction xs rule: groups8.induct)
  case (1 xs)
  then show ?case
    by (cases "xs = []") (simp_all add: groups8_Nil groups8_step)
qed

lemma parseInt2_bits:
  assumes "g \<noteq> []" and "\<forall>c\<in>set g. is_bit c"
  shows "parseInt2 g = Some (bits_value g)"
proof -
  obtain c cs where g: "g = c # cs"
    using assms(1) by (cases g) auto
  with assms(2) have c: "is_bit c" by simp
  then have "\<not> is_space c" by (rule bit_not_space)
  moreover from c have "c \<noteq> CHR ''-''" "c \<noteq> CHR ''+''"
    by (auto simp: is_bit_def)
  moreover have "takeWhile is_bit g = g"
    using assms(2) by (simp add: takeWhile_eq_all_conv)
  ultimately show ?thesis
    using g by (simp add: parseInt2_def Let_def)
qed

lemma foldl_bits:
  "foldl (\<lambda>a c. 2 * a + (if c = CHR ''1'' then 1 else 0)) a g =
     a * 2 ^ length g + foldl (\<lambda>a c. 2 * a + (if c = CHR ''1'' then 1 else 0)) (0::int) g"
proof (induction g arbitrary: a)
  case Nil
  show ?case by simp
next
  case (Cons c cs)
  let ?f = "\<lambda>(a::int) c. 2 * a + (if c = CHR ''1'' then 1 else 0)"
  let ?b = "if c = CHR ''1'' then 1 else (0::int)"
  have "foldl ?f a (c # cs) = foldl ?f (2 * a + ?b) cs"
    by simp
  also have "\<dots> = (2 * a + ?b) * 2 ^ length cs + foldl ?f 0 cs"
    by (rule Cons.IH)
  finally have l: "foldl ?f a (c # cs) = (2 * a + ?b) * 2 ^ length cs + foldl ?f 0 cs" .
  have "foldl ?f 0 (c # cs) = foldl ?f ?b cs"
    by simp
  also have "\<dots> = ?b * 2 ^ length cs + foldl ?f 0 cs"
    by (rule Cons.IH)
  finally have r: "foldl ?f 0 (c # cs) = ?b * 2 ^ length cs + foldl ?f 0 cs" .
  show ?case
    unfolding l r by (simp add: distrib_right)
qed

lemma bits_value_Cons:
  "bits_value (c # cs) = (if c = CHR ''1'' then 2 ^ length cs else 0) + bits_value cs"
  using foldl_bits [of "if c = CHR ''1'' then 1 else 0" cs]
  by (simp add: bits_value_def)

lemma bits_value_bounds: "0 \<le> bits_value g \<and> bits_value g < 2 ^ length g"
  by (induction g) (simp add: bits_value_def, auto simp: bits_value_Cons)

lemma to_uint8_bits:
  assumes "g \<noteq> []" and "\<forall>c\<in>set g. is_bit c" and "length g \<le> 8"
  shows "to_uint8 (parseInt2 g) = nat (bits_value g)"
proof -
  have "bits_value g < 2 ^ length g" and n: "0 \<le> bits_value g"
    using bits_value_bounds [of g] by simp_all
  moreover have "(2::int) ^ length g \<le> 2 ^ 8"
    using assms(3) by (intro power_increasing) simp_all
  ultimately have "bits_value g < 256" by simp
  with n show ?thesis
    by (simp add: parseInt2_bits [OF assms(1,2)] to_uint8_def)
qed

text \<open>
  C4, as amended. For a text of bits and whitespace, the binary mode removes the whitespace
  and cuts the bits into groups of eight, the last group holding what is left; each group
  gives one byte, the number its bits spell with the first bit the most significant. A last
  group of fewer than eight bits is therefore not padded on the right: its byte is below
  two to the number of its bits.
\<close>

theorem binary_send_right_aligned:
  "(\<forall>c\<in>set d. is_space c \<or> is_bit c) \<longrightarrow>
     encode ''binary'' d = map (\<lambda>g. nat (bits_value g)) (groups8 (strip_ws d)) \<and>
     concat (groups8 (strip_ws d)) = strip_ws d \<and>
     length (encode ''binary'' d) = (length (strip_ws d) + 7) div 8 \<and>
     (\<forall>g\<in>set (groups8 (strip_ws d)).
        g \<noteq> [] \<and> length g \<le> 8 \<and> 0 \<le> bits_value g \<and> bits_value g < 2 ^ length g \<and>
        bits_value g =
          (if hd g = CHR ''1'' then 2 ^ (length g - 1) else 0) + bits_value (tl g))"
proof
  assume a: "\<forall>c\<in>set d. is_space c \<or> is_bit c"
  then have bits: "\<forall>c\<in>set (strip_ws d). is_bit c"
    by (auto simp: strip_ws_def)
  have g: "\<forall>g\<in>set (groups8 (strip_ws d)). g \<noteq> [] \<and> length g \<le> 8 \<and> (\<forall>c\<in>set g. is_bit c)"
    using bits groups8_set [of _ "strip_ws d"] by blast
  have 1: "encode ''binary'' d = map (\<lambda>g. nat (bits_value g)) (groups8 (strip_ws d))"
    using g by (simp add: encode_def binary_bytes_groups to_uint8_bits)
  have 4: "\<forall>g\<in>set (groups8 (strip_ws d)).
        g \<noteq> [] \<and> length g \<le> 8 \<and> 0 \<le> bits_value g \<and> bits_value g < 2 ^ length g \<and>
        bits_value g =
          (if hd g = CHR ''1'' then 2 ^ (length g - 1) else 0) + bits_value (tl g)"
  proof
    fix x
    assume x: "x \<in> set (groups8 (strip_ws d))"
    with g have ne: "x \<noteq> []" and le: "length x \<le> 8" by simp_all
    then obtain c cs where "x = c # cs" by (cases x) auto
    then have "bits_value x =
          (if hd x = CHR ''1'' then 2 ^ (length x - 1) else 0) + bits_value (tl x)"
      by (simp add: bits_value_Cons)
    with ne le bits_value_bounds [of x]
    show "x \<noteq> [] \<and> length x \<le> 8 \<and> 0 \<le> bits_value x \<and> bits_value x < 2 ^ length x \<and>
        bits_value x =
          (if hd x = CHR ''1'' then 2 ^ (length x - 1) else 0) + bits_value (tl x)"
      by simp
  qed
  have 2: "concat (groups8 (strip_ws d)) = strip_ws d"
    by (rule concat_groups8)
  have 3: "length (encode ''binary'' d) = (length (strip_ws d) + 7) div 8"
    by (simp add: 1 length_groups8)
  show "encode ''binary'' d = map (\<lambda>g. nat (bits_value g)) (groups8 (strip_ws d)) \<and>
     concat (groups8 (strip_ws d)) = strip_ws d \<and>
     length (encode ''binary'' d) = (length (strip_ws d) + 7) div 8 \<and>
     (\<forall>g\<in>set (groups8 (strip_ws d)).
        g \<noteq> [] \<and> length g \<le> 8 \<and> 0 \<le> bits_value g \<and> bits_value g < 2 ^ length g \<and>
        bits_value g =
          (if hd g = CHR ''1'' then 2 ^ (length g - 1) else 0) + bits_value (tl g))"
    by (rule conjI [OF 1 conjI [OF 2 conjI [OF 3 4]]])
qed

lemma strip_ws_sample: "strip_ws ''1000 0001 101'' = ''10000001101''"
  by (simp add: strip_ws_def is_space_def code_def)

lemma groups8_sample: "groups8 ''10000001101'' = [''10000001'', ''101'']"
  by (simp add: groups8_step groups8_Nil)

theorem binary_send_right_aligned_witness:
  "list_all (\<lambda>c. is_space c \<or> is_bit c) ''1000 0001 101'' \<and>
   encode ''binary'' ''1000 0001 101'' = [129, 5] \<and>
   length (encode ''binary'' ''1000 0001 101'') = (length ''10000001101'' + 7) div 8"
proof -
  have h: "\<forall>c\<in>set ''1000 0001 101''. is_space c \<or> is_bit c"
    by (simp add: is_space_def is_bit_def code_def)
  have v: "map (\<lambda>g. nat (bits_value g)) [''10000001'', ''101''] = [129, 5]"
    by (simp add: bits_value_def)
  note t = binary_send_right_aligned [of "''1000 0001 101''", THEN mp, OF h]
  have e: "encode ''binary'' ''1000 0001 101'' = [129, 5]"
    using t [THEN conjunct1] by (simp only: strip_ws_sample groups8_sample v)
  have l: "length (encode ''binary'' ''1000 0001 101'') = (length ''10000001101'' + 7) div 8"
    using t [THEN conjunct2, THEN conjunct2, THEN conjunct1] by (simp only: strip_ws_sample)
  have h': "list_all (\<lambda>c. is_space c \<or> is_bit c) ''1000 0001 101''"
    using h by (simp only: list_all_iff)
  from h' e l show ?thesis by (intro conjI)
qed

text \<open>
  C4 as stated fails: the one-bit text \<open>1\<close> is encoded as the byte \<open>0x01\<close>, not
  \<open>0x80\<close>, and that byte is what is handed to the port.
\<close>

theorem binary_padding_counterexample:
  "encode ''binary'' ''1'' = [1] \<and> encode ''binary'' ''1'' \<noteq> [128] \<and>
   \<not> isl (send ''a'' ''1'' ''binary'' None 7 open_manager) \<and>
   writes (projr (send ''a'' ''1'' ''binary'' None 7 open_manager)) = [(''a'', [1])]"
proof -
  have h: "connections open_manager ''a'' = Some open_conn" "port open_conn \<noteq> None"
      "connected open_conn"
    by (simp_all add: open_manager_conn) (simp_all add: open_conn_def)
  have e: "encode ''binary'' ''1'' = [1]"
    by (simp add: encode_def strip_ws_def is_space_def code_def binary_bytes_step
        binary_bytes_Nil parseInt2_def is_bit_def bits_value_def to_uint8_def)
  show ?thesis
    by (simp add: send_open [OF h] e emit_def set_conn_def open_manager_writes)
qed

section \<open>Running a macro\<close>

lemma run_commands_ok:
  assumes step: "\<forall>d md t. P t \<longrightarrow> (\<exists>t'. sender cid d md t = Inr t' \<and> P t')"
  shows "P s \<Longrightarrow> \<exists>s'. run_commands sender ps cid cmds s tr =
           (None, s', tr @ concat (map (actions_of ps cid) cmds)) \<and> P s'"
proof (induction cmds arbitrary: s tr)
  case Nil
  then show ?case by simp
next
  case (Cons cmd cmds)
  from step Cons.prems obtain t' where
    t: "sender cid (inject ps (cmd_data cmd)) (mode_or_ascii (cmd_mode cmd)) s = Inr t'" and "P t'"
    by blast
  from Cons.IH [OF \<open>P t'\<close>] obtain s' where
    "run_commands sender ps cid cmds t' (tr @ actions_of ps cid cmd) =
       (None, s', (tr @ actions_of ps cid cmd) @ concat (map (actions_of ps cid) cmds))" and "P s'"
    by blast
  with t show ?case
    by (simp add: Let_def actions_of_def [of ps cid cmd])
qed

lemma run_repeat_ok:
  assumes step: "\<forall>d md t. P t \<longrightarrow> (\<exists>t'. sender cid d md t = Inr t' \<and> P t')"
  shows "P s \<Longrightarrow> \<exists>s'. run_repeat sender ps cid cmds n s tr =
           (None, s', tr @ concat (replicate n (concat (map (actions_of ps cid) cmds)))) \<and> P s'"
proof (induction n arbitrary: s tr)
  case 0
  then show ?case by simp
next
  case (Suc n)
  from run_commands_ok [where P = P and sender = sender and cid = cid, OF step Suc.prems] obtain t where
    c: "run_commands sender ps cid cmds s tr = (None, t, tr @ concat (map (actions_of ps cid) cmds))"
    and "P t"
    by blast
  from Suc.IH [OF \<open>P t\<close>] obtain s' where
    "run_repeat sender ps cid cmds n t (tr @ concat (map (actions_of ps cid) cmds)) =
       (None, s', (tr @ concat (map (actions_of ps cid) cmds))
          @ concat (replicate n (concat (map (actions_of ps cid) cmds))))" and "P s'"
    by blast
  with c show ?case by simp
qed

lemma last_actions_of:
  "0 < cmd_delayMs cmd \<Longrightarrow> last (actions_of ps cid cmd) = Slept (cmd_delayMs cmd)"
  by (simp add: actions_of_def)

lemma actions_of_nonempty: "actions_of ps cid cmd \<noteq> []"
  by (simp add: actions_of_def)

lemma last_concat_map:
  "cmds \<noteq> [] \<Longrightarrow> last (concat (map (actions_of ps cid) cmds)) = last (actions_of ps cid (last cmds))"
proof (induction cmds)
  case Nil
  then show ?case by simp
next
  case (Cons c cs)
  show ?case
  proof (cases "cs = []")
    case True
    then show ?thesis by simp
  next
    case False
    then have "concat (map (actions_of ps cid) cs) \<noteq> []"
      by (cases cs) (simp_all add: actions_of_nonempty)
    with False Cons.IH show ?thesis by simp
  qed
qed

lemma last_concat_replicate: "xs \<noteq> [] \<Longrightarrow> last (concat (replicate (Suc n) xs)) = last xs"
  by (induction n) simp_all

lemma sender0_keeps_open:
  "channel_open cid t \<Longrightarrow> \<exists>t'. sender0 cid d md t = Inr t' \<and> channel_open cid t'"
proof -
  assume "channel_open cid t"
  then obtain c where c: "connections t cid = Some c" "port c \<noteq> None" "connected c"
    by (auto simp: channel_open_def split: option.splits)
  show ?thesis
    using c
    by (auto simp: sender0_def send_open [OF c] channel_open_def emit_def set_conn_def
        addToBuffer_def Let_def)
qed

text \<open>
  What \<open>run\<close> does with a stored macro whose \<open>repeatCount\<close> is at least 1, for
  parameters with plain keys, on a manager whose \<open>send\<close> keeps returning (the property
  \<open>P\<close> of the manager, such as the channel being open, holds at the start and after every
  \<open>send\<close>): it returns without an exception, and its actions are, \<open>repeatCount\<close> times
  over, for each command in order, one call of \<open>send\<close> with the channel, the data after
  substitution and the command's mode (\<open>ascii\<close> if it has none), then a suspension of
  \<open>delayMs\<close> if that is positive. The loops make no difference between the last command
  and the others.
\<close>

lemma run_sends_then_sleeps:
  "find (\<lambda>m. macro_id m = mid) macros = Some macro \<and> 1 \<le> repeatCount macro \<and>
    list_all plain_key (map fst ps) \<and> P s \<and>
    (\<forall>d md t. P t \<longrightarrow> (\<exists>t'. sender cid d md t = Inr t' \<and> P t')) \<longrightarrow>
      fst (run macros mid sender ps cid s) = None \<and>
      snd (snd (run macros mid sender ps cid s)) =
        concat (replicate (nat (repeatCount macro))
          (concat (map (\<lambda>cmd. Sent cid (inject ps (cmd_data cmd)) (mode_or_ascii (cmd_mode cmd))
                             # (if 0 < cmd_delayMs cmd then [Slept (cmd_delayMs cmd)] else []))
                    (commands macro)))) \<and>
      (commands macro \<noteq> [] \<and> 0 < cmd_delayMs (last (commands macro)) \<longrightarrow>
         last (snd (snd (run macros mid sender ps cid s))) =
           Slept (cmd_delayMs (last (commands macro))))"
proof
  assume h: "find (\<lambda>m. macro_id m = mid) macros = Some macro \<and> 1 \<le> repeatCount macro \<and>
    list_all plain_key (map fst ps) \<and> P s \<and>
    (\<forall>d md t. P t \<longrightarrow> (\<exists>t'. sender cid d md t = Inr t' \<and> P t'))"
  then have f: "find (\<lambda>m. macro_id m = mid) macros = Some macro" and rc: "1 \<le> repeatCount macro"
    and ps: "P s" and step: "\<forall>d md t. P t \<longrightarrow> (\<exists>t'. sender cid d md t = Inr t' \<and> P t')"
    by simp_all
  define n where "n = nat (repeatCount macro)"
  define body where "body = concat (map (actions_of ps cid) (commands macro))"
  from rc obtain k where k: "n = Suc k"
    by (cases n) (simp_all add: n_def)
  have run_eq: "run macros mid sender ps cid s = run_repeat sender ps cid (commands macro) n s []"
    using rc by (simp add: run_def f n_def)
  from run_repeat_ok [where P = P and sender = sender and cid = cid, OF step ps,
      of ps "commands macro" n "[]"]
  obtain s' where rep_eq: "run_repeat sender ps cid (commands macro) n s [] =
      (None, s', concat (replicate n body))"
    by (auto simp: body_def)
  have body_eq: "body = concat (map (\<lambda>cmd. Sent cid (inject ps (cmd_data cmd)) (mode_or_ascii (cmd_mode cmd))
                           # (if 0 < cmd_delayMs cmd then [Slept (cmd_delayMs cmd)] else []))
                  (commands macro))"
    by (simp add: body_def actions_of_def [abs_def])
  have last_eq: "commands macro \<noteq> [] \<and> 0 < cmd_delayMs (last (commands macro)) \<longrightarrow>
      last (concat (replicate n body)) = Slept (cmd_delayMs (last (commands macro)))"
  proof
    assume c: "commands macro \<noteq> [] \<and> 0 < cmd_delayMs (last (commands macro))"
    then have "body \<noteq> []"
      by (cases "commands macro") (simp_all add: body_def actions_of_nonempty)
    then have "last (concat (replicate n body)) = last body"
      unfolding k by (rule last_concat_replicate)
    also have "\<dots> = last (actions_of ps cid (last (commands macro)))"
      using c by (simp add: body_def last_concat_map)
    also have "\<dots> = Slept (cmd_delayMs (last (commands macro)))"
      using c by (simp add: last_actions_of)
    finally show "last (concat (replicate n body)) = Slept (cmd_delayMs (last (commands macro)))" .
  qed
  show "fst (run macros mid sender ps cid s) = None \<and>
    snd (snd (run macros mid sender ps cid s)) =
      concat (replicate (nat (repeatCount macro))
        (concat (map (\<lambda>cmd. Sent cid (inject ps (cmd_data cmd)) (mode_or_ascii (cmd_mode cmd))
                           # (if 0 < cmd_delayMs cmd then [Slept (cmd_delayMs cmd)] else []))
                  (commands macro)))) \<and>
    (commands macro \<noteq> [] \<and> 0 < cmd_delayMs (last (commands macro)) \<longrightarrow>
       last (snd (snd (run macros mid sender ps cid s))) =
         Slept (cmd_delayMs (last (commands macro))))"
    using last_eq unfolding run_eq rep_eq body_eq [symmetric] n_def [symmetric] by simp
qed

lemma open_manager_open: "channel_open ''a'' open_manager"
  by (simp add: channel_open_def open_manager_conn) (simp add: open_conn_def)

lemma sender0_step:
  "\<forall>d md t. channel_open ''a'' t \<longrightarrow> (\<exists>t'. sender0 ''a'' d md t = Inr t' \<and> channel_open ''a'' t')"
  by (simp add: sender0_keeps_open)

text \<open>Substitution on samples: a value put in the place of its placeholder, data without
  a placeholder, and the replacement patterns of a value.\<close>

lemma inject_set_x: "inject [(''x'', ''42'')] ''SET {{x}}'' = ''SET 42''"
  by (simp add: inject_def replace_placeholder_def placeholder_def)

lemma inject_go: "inject [(''x'', ''42'')] ''GO'' = ''GO''"
  by (simp add: inject_def replace_placeholder_def placeholder_def)

lemma inject_twice: "inject [(''x'', ''1'')] ''{{x}}+{{x}}={{y}}'' = ''1+1={{y}}''"
  by (simp add: inject_def replace_placeholder_def placeholder_def)

lemma inject_matched: "inject [(''x'', ''$&'')] ''SET {{x}}'' = ''SET {{x}}''"
  by (simp add: inject_def replace_placeholder_def placeholder_def)

lemma inject_dollar: "inject [(''x'', ''$$5 $1'')] ''SET {{x}}'' = ''SET $5 $1''"
  by (simp add: inject_def replace_placeholder_def placeholder_def)

lemma inject_before_after:
  "inject [(''x'', [CHR ''$'', CHR 0x60, CHR ''|'', CHR ''$'', CHR 0x27])] ''ab{{x}}cd'' = ''abab|cdcd''"
  by (simp add: inject_def replace_placeholder_def placeholder_def)

lemma run_sample:
  "fst (run [macro1, macro2] ''m1'' sender0 [(''x'', ''42'')] ''a'' open_manager) = None \<and>
   snd (snd (run [macro1, macro2] ''m1'' sender0 [(''x'', ''42'')] ''a'' open_manager)) =
     [Sent ''a'' ''SET 42'' ''ascii'', Slept 10, Sent ''a'' ''GO'' ''ascii'',
      Sent ''a'' ''SET 42'' ''ascii'', Slept 10, Sent ''a'' ''GO'' ''ascii'']"
proof -
  have f1: "find (\<lambda>m. macro_id m = ''m1'') [macro1, macro2] = Some macro1"
    by (simp add: macro1_def macro2_def)
  have r1: "1 \<le> repeatCount macro1"
    by (simp add: macro1_def)
  have pp: "list_all plain_key (map fst [(''x'', ''42'')])"
    by (simp add: plain_key_def word_char_def code_def)
  have h1: "find (\<lambda>m. macro_id m = ''m1'') [macro1, macro2] = Some macro1 \<and> 1 \<le> repeatCount macro1 \<and>
    list_all plain_key (map fst [(''x'', ''42'')]) \<and> channel_open ''a'' open_manager \<and>
    (\<forall>d md t. channel_open ''a'' t \<longrightarrow> (\<exists>t'. sender0 ''a'' d md t = Inr t' \<and> channel_open ''a'' t'))"
    using f1 r1 pp open_manager_open sender0_step by (intro conjI)
  note a1 = run_sends_then_sleeps [of "''m1''" "[macro1, macro2]" macro1 "[(''x'', ''42'')]"
      "channel_open ''a''" open_manager sender0 "''a''", THEN mp, OF h1]
  have e1: "fst (run [macro1, macro2] ''m1'' sender0 [(''x'', ''42'')] ''a'' open_manager) = None"
    by (rule a1 [THEN conjunct1])
  have e2: "snd (snd (run [macro1, macro2] ''m1'' sender0 [(''x'', ''42'')] ''a'' open_manager)) =
     [Sent ''a'' ''SET 42'' ''ascii'', Slept 10, Sent ''a'' ''GO'' ''ascii'',
      Sent ''a'' ''SET 42'' ''ascii'', Slept 10, Sent ''a'' ''GO'' ''ascii'']"
    unfolding a1 [THEN conjunct2, THEN conjunct1]
    by (simp add: macro1_def inject_set_x inject_go mode_or_ascii_def numeral_2_eq_2)
  from e1 e2 show ?thesis
    by (intro conjI)
qed

text \<open>
  C5. The macro of the one command \<open>GO\<close> with \<open>delayMs = 10\<close> and \<open>repeatCount = 1\<close>,
  run without parameters on the open channel \<open>a\<close>: \<open>run\<close> sends \<open>GO\<close> and then suspends
  for 10 ms, after the final command of the final iteration, where nothing follows.
\<close>

theorem run_delays_after_final_command:
  "find (\<lambda>m. macro_id m = ''m2'') [macro1, macro2] = Some macro2 \<and>
   repeatCount macro2 = 1 \<and>
   commands macro2 = [\<lparr>cmd_data = ''GO'', cmd_mode = ''ascii'', cmd_delayMs = 10\<rparr>] \<and>
   fst (run [macro1, macro2] ''m2'' sender0 [] ''a'' open_manager) = None \<and>
   snd (snd (run [macro1, macro2] ''m2'' sender0 [] ''a'' open_manager)) =
     [Sent ''a'' ''GO'' ''ascii'', Slept 10]"
proof -
  have f2: "find (\<lambda>m. macro_id m = ''m2'') [macro1, macro2] = Some macro2"
    by (simp add: macro1_def macro2_def)
  have h: "connections open_manager ''a'' = Some open_conn" "port open_conn \<noteq> None"
      "connected open_conn"
    by (simp_all add: open_manager_conn) (simp_all add: open_conn_def)
  have s: "sender0 ''a'' ''GO'' ''ascii'' open_manager = send ''a'' ''GO'' ''ascii'' None 7 open_manager"
    by (simp add: sender0_def)
  have r: "run [macro1, macro2] ''m2'' sender0 [] ''a'' open_manager =
      run_repeat sender0 [] ''a'' [\<lparr>cmd_data = ''GO'', cmd_mode = ''ascii'', cmd_delayMs = 10\<rparr>]
        (Suc 0) open_manager []"
    by (simp add: run_def macro1_def macro2_def)
  have c: "run_commands sender0 [] ''a''
        [\<lparr>cmd_data = ''GO'', cmd_mode = ''ascii'', cmd_delayMs = 10\<rparr>] open_manager [] =
      (None, projr (send ''a'' ''GO'' ''ascii'' None 7 open_manager),
       [Sent ''a'' ''GO'' ''ascii'', Slept 10])"
    by (simp add: inject_def mode_or_ascii_def s send_open [OF h] Let_def)
  have rr: "run_repeat sender0 [] ''a''
        [\<lparr>cmd_data = ''GO'', cmd_mode = ''ascii'', cmd_delayMs = 10\<rparr>] (Suc 0) open_manager [] =
      (None, projr (send ''a'' ''GO'' ''ascii'' None 7 open_manager),
       [Sent ''a'' ''GO'' ''ascii'', Slept 10])"
    by (simp only: run_repeat.simps c prod.case option.case)
  have e1: "fst (run [macro1, macro2] ''m2'' sender0 [] ''a'' open_manager) = None"
    unfolding r rr by simp
  have e2: "snd (snd (run [macro1, macro2] ''m2'' sender0 [] ''a'' open_manager)) =
     [Sent ''a'' ''GO'' ''ascii'', Slept 10]"
    unfolding r rr by simp
  have rc: "repeatCount macro2 = 1"
    and cm: "commands macro2 = [\<lparr>cmd_data = ''GO'', cmd_mode = ''ascii'', cmd_delayMs = 10\<rparr>]"
    by (simp_all add: macro2_def)
  from f2 rc cm e1 e2 show ?thesis
    by (intro conjI)
qed

section \<open>Line framing of received bytes\<close>

lemma transform_loop_none: "10 \<notin> set s \<Longrightarrow> transform_loop s = ([], s)"
  by (subst transform_loop.simps) simp

lemma transform_loop_line:
  assumes "10 \<notin> set l"
  shows "transform_loop (l @ 10 # rest) = (l # fst (transform_loop rest), snd (transform_loop rest))"
proof -
  have "takeWhile (\<lambda>b. b \<noteq> 10) (l @ 10 # rest) = l"
    using assms by (induction l) auto
  then show ?thesis
    by (subst transform_loop.simps) (simp add: Let_def)
qed






lemma transform_loop_cr: "10 \<notin> set l \<Longrightarrow> transform_loop (l @ [13, 10]) = ([l @ [13]], [])"
proof -
  assume "10 \<notin> set l"
  then have "10 \<notin> set (l @ [13])" by simp
  then have "transform_loop ((l @ [13]) @ 10 # []) =
      ((l @ [13]) # fst (transform_loop []), snd (transform_loop []))"
    by (rule transform_loop_line)
  then show ?thesis
    by (simp add: transform_loop_none)
qed































end
